theory Spec2Isabelle
  imports Complex_Main
begin

section \<open>Values, exceptions and the data model\<close>

text \<open>
  The store of \<^verbatim>\<open>shopping-list/src/client.py\<close> is called with scalar arguments and checks
  them with \<^verbatim>\<open>isinstance(x, int)\<close>, so an argument is a Python value: \<^verbatim>\<open>None\<close>, an
  (unbounded) integer or a string. Python's \<^verbatim>\<open>bool\<close> and \<^verbatim>\<open>float\<close> arguments and
  container arguments are outside the modelled universe.
\<close>

datatype pyval = PNone | PInt int | PStr string

text \<open>
  \<^verbatim>\<open>exceptions.py\<close>: \<^verbatim>\<open>ShoppingListError(message, error_code=None)\<close> with the subclasses
  \<^verbatim>\<open>ValidationError\<close>, \<^verbatim>\<open>ItemNotFoundError\<close>, and below \<^verbatim>\<open>ValidationError\<close> the classes
  \<^verbatim>\<open>InvalidQuantityError\<close> and \<^verbatim>\<open>InvalidSkuError\<close>. \<^verbatim>\<open>TypeError\<close> and \<^verbatim>\<open>ValueError\<close> are
  the built-in exceptions that \<^verbatim>\<open>int(...)\<close> raises.
\<close>

datatype exc_class =
    ShoppingListError | ValidationError | ItemNotFoundError
  | InvalidQuantityError | InvalidSkuError
  | TypeError | ValueError

datatype exn = Exn (exn_class: exc_class) (message: string) (error_code: "string option")

text \<open>\<^verbatim>\<open>isinstance(e, ValidationError)\<close>, \<^verbatim>\<open>isinstance(e, ItemNotFoundError)\<close> and
  \<^verbatim>\<open>isinstance(e, ShoppingListError)\<close> on the class of an exception.\<close>

fun isinstance_ValidationError :: "exc_class \<Rightarrow> bool" where
  "isinstance_ValidationError ValidationError = True"
| "isinstance_ValidationError InvalidQuantityError = True"
| "isinstance_ValidationError InvalidSkuError = True"
| "isinstance_ValidationError _ = False"

fun isinstance_ItemNotFoundError :: "exc_class \<Rightarrow> bool" where
  "isinstance_ItemNotFoundError ItemNotFoundError = True"
| "isinstance_ItemNotFoundError _ = False"

fun isinstance_ShoppingListError :: "exc_class \<Rightarrow> bool" where
  "isinstance_ShoppingListError TypeError = False"
| "isinstance_ShoppingListError ValueError = False"
| "isinstance_ShoppingListError _ = True"

subsection \<open>Decimal text of an integer\<close>

text \<open>The f-strings of the error messages print integers in decimal, as \<^verbatim>\<open>str(int)\<close> does.\<close>

definition digit_char :: "nat \<Rightarrow> char" where
  "digit_char d = char_of (of_char CHR ''0'' + d)"

function str_nat :: "nat \<Rightarrow> string" where
  "str_nat n = (if n < 10 then [digit_char n] else str_nat (n div 10) @ [digit_char (n mod 10)])"
  by pat_completeness auto
termination
  by (relation "measure (\<lambda>n. n)") auto

declare str_nat.simps [simp del]

definition str_int :: "int \<Rightarrow> string" where
  "str_int i = (if i < 0 then CHR ''-'' # str_nat (nat (- i)) else str_nat (nat i))"

text \<open>\<^verbatim>\<open>str(x)\<close>, as the f-strings apply it to an argument.\<close>

fun py_str :: "pyval \<Rightarrow> string" where
  "py_str PNone = ''None''"
| "py_str (PInt i) = str_int i"
| "py_str (PStr s) = s"

subsection \<open>The store\<close>

text \<open>
  A line item is the dict \<^verbatim>\<open>{"sku": sku, "quantity": quantity}\<close>; both fields are integers,
  since \<^verbatim>\<open>update_list\<close> validates them before it stores them. A shopping list is
  \<^verbatim>\<open>{"list_id": customer_id, "items": [...]}\<close>. A catalog item is
  \<^verbatim>\<open>{"sku": ..., "item_name": ..., "unit_price": ...}\<close>; the price, a float literal with two
  decimals in the source, is the rational number that the literal denotes.
\<close>

record line_item =
  sku :: int
  quantity :: int

record shopping_list =
  list_id :: int
  items :: "line_item list"

record catalog_item =
  item_sku :: int
  item_name :: string
  unit_price :: rat

text \<open>
  \<^verbatim>\<open>ShoppingListClient\<close>: \<^verbatim>\<open>self.shopping_lists\<close> (a dict keyed by customer id) and
  \<^verbatim>\<open>self.items\<close> (the catalog, a dict keyed by SKU; here \<open>catalog\<close>, since \<open>items\<close> is the
  field of a shopping list).
\<close>

record client =
  shopping_lists :: "int \<rightharpoonup> shopping_list"
  catalog :: "int \<rightharpoonup> catalog_item"

definition seed_items :: "(int \<times> catalog_item) list" where
  "seed_items =
    [(101, \<lparr>item_sku = 101, item_name = ''Apple'', unit_price = 350 / 100\<rparr>),
     (102, \<lparr>item_sku = 102, item_name = ''Bread'', unit_price = 500 / 100\<rparr>),
     (103, \<lparr>item_sku = 103, item_name = ''Milk'', unit_price = 280 / 100\<rparr>),
     (104, \<lparr>item_sku = 104, item_name = ''Eggs'', unit_price = 420 / 100\<rparr>),
     (105, \<lparr>item_sku = 105, item_name = ''Chicken Breast'', unit_price = 850 / 100\<rparr>),
     (106, \<lparr>item_sku = 106, item_name = ''Pasta'', unit_price = 300 / 100\<rparr>),
     (107, \<lparr>item_sku = 107, item_name = ''Tomatoes'', unit_price = 250 / 100\<rparr>)]"

text \<open>\<^verbatim>\<open>ShoppingListClient.__init__\<close>.\<close>

definition init_client :: client where
  "init_client = \<lparr>shopping_lists = Map.empty, catalog = map_of seed_items\<rparr>"

section \<open>validators.py\<close>

text \<open>
  A validator returns nothing or raises. Here \<open>Inl\<close> is the exception raised; \<open>Inr\<close> carries
  the integer that passed the check, which the caller goes on to use.
\<close>

definition validate_sku :: "pyval \<Rightarrow> exn + int" where
  "validate_sku v =
     (case v of
        PInt s \<Rightarrow>
          if s \<le> 0 then Inl (Exn InvalidSkuError ''SKU must be a positive integer'' None)
          else Inr s
      | _ \<Rightarrow> Inl (Exn InvalidSkuError ''SKU must be a positive integer'' None))"

definition validate_quantity :: "pyval \<Rightarrow> exn + int" where
  "validate_quantity v =
     (case v of
        PInt q \<Rightarrow>
          if q < 0 then Inl (Exn InvalidQuantityError ''Quantity cannot be negative'' None)
          else Inr q
      | _ \<Rightarrow> Inl (Exn InvalidQuantityError ''Quantity must be an integer'' None))"

section \<open>client.py\<close>

text \<open>
  A method of the client takes the client and returns its result (\<open>Inl\<close>: the exception
  raised) with the client as the call leaves it.
\<close>

definition get_shopping_list :: "client \<Rightarrow> pyval \<Rightarrow> (exn + shopping_list) \<times> client" where
  "get_shopping_list st customer_id =
     (case customer_id of
        PInt c \<Rightarrow>
          if c < 0 then (Inl (Exn ValidationError ''Invalid customer ID'' None), st)
          else (case shopping_lists st c of
                  None \<Rightarrow>
                    (Inr \<lparr>list_id = c, items = []\<rparr>,
                     st\<lparr>shopping_lists := (shopping_lists st)(c \<mapsto> \<lparr>list_id = c, items = []\<rparr>)\<rparr>)
                | Some l \<Rightarrow> (Inr l, st))
      | _ \<Rightarrow> (Inl (Exn ValidationError ''Invalid customer ID'' None), st))"

text \<open>\<^verbatim>\<open>existing_item['quantity'] = n\<close>, where the existing item is the first one of the list
  with the SKU: the list holds the same object, so the first such entry changes.\<close>

fun set_quantity :: "int \<Rightarrow> int \<Rightarrow> line_item list \<Rightarrow> line_item list" where
  "set_quantity s n [] = []"
| "set_quantity s n (x # xs) =
     (if sku x = s then x\<lparr>quantity := n\<rparr> # xs else x # set_quantity s n xs)"

text \<open>
  The part of \<^verbatim>\<open>update_list\<close> from \<^verbatim>\<open>existing_item = next(...)\<close> on: the three update
  policies on the items \<open>its\<close> of the customer's list, for a validated SKU \<open>s\<close> and quantity
  \<open>q\<close>. The result is the new list of items, or the exception raised; every \<^verbatim>\<open>raise\<close> comes
  before the first change of the list. A line item is a dict with two keys and hence true,
  so \<^verbatim>\<open>not existing_item\<close> holds for \<^verbatim>\<open>None\<close> only. \<^verbatim>\<open>items.remove(x)\<close> deletes the first
  entry equal to \<open>x\<close>, which is \<^const>\<open>remove1\<close>. The last branch is the fall through of the
  \<^verbatim>\<open>if\<close>/\<^verbatim>\<open>elif\<close> chain for any other operation, which \<^verbatim>\<open>update_list\<close> has excluded before.
\<close>

definition apply_operation :: "string \<Rightarrow> int \<Rightarrow> int \<Rightarrow> line_item list \<Rightarrow> exn + line_item list" where
  "apply_operation operation s q its =
     (let existing_item = find (\<lambda>item. sku item = s) its in
      if operation = ''add'' then
        (case existing_item of
           None \<Rightarrow> Inr (its @ [\<lparr>sku = s, quantity = q\<rparr>])
         | Some e \<Rightarrow>
             (case validate_quantity (PInt (quantity e + q)) of
                Inl err \<Rightarrow> Inl err
              | Inr new_quantity \<Rightarrow> Inr (set_quantity s new_quantity its)))
      else if operation = ''remove'' then
        (case existing_item of
           None \<Rightarrow>
             Inl (Exn ItemNotFoundError
                   (''Cannot remove - item with SKU '' @ str_int s @ '' not found in list'') None)
         | Some e \<Rightarrow>
             if q > quantity e then
               Inl (Exn ValidationError
                     (''Cannot remove '' @ str_int q @ '' - only '' @ str_int (quantity e)
                        @ '' available'') None)
             else if quantity e - q > 0 then Inr (set_quantity s (quantity e - q) its)
             else Inr (remove1 e its))
      else if operation = ''set'' then
        (if q > 0 then
           (case existing_item of
              Some e \<Rightarrow> Inr (set_quantity s q its)
            | None \<Rightarrow> Inr (its @ [\<lparr>sku = s, quantity = q\<rparr>]))
         else
           (case existing_item of
              Some e \<Rightarrow> Inr (remove1 e its)
            | None \<Rightarrow> Inr its))
      else Inr its)"

text \<open>The message \<^verbatim>\<open>"Operation must be 'add', 'remove', or 'set'"\<close>; \<open>CHR 0x27\<close> is the
  apostrophe.\<close>

definition operation_message :: string where
  "operation_message =
     ''Operation must be '' @ [CHR 0x27] @ ''add'' @ [CHR 0x27] @ '', '' @ [CHR 0x27] @ ''remove''
       @ [CHR 0x27] @ '', or '' @ [CHR 0x27] @ ''set'' @ [CHR 0x27]"

text \<open>
  \<^verbatim>\<open>update_list(sku, quantity, customer_id, operation)\<close>. The list that
  \<^verbatim>\<open>get_shopping_list\<close> returns is the object held in \<^verbatim>\<open>self.shopping_lists\<close> under the
  customer id, so the change of its items is a change of that entry. (When
  \<^verbatim>\<open>get_shopping_list\<close> has returned, the customer id is an integer; the other case of
  \<open>customer_id\<close> below is never taken.)
\<close>

definition update_list ::
  "client \<Rightarrow> pyval \<Rightarrow> pyval \<Rightarrow> pyval \<Rightarrow> pyval \<Rightarrow> (exn + shopping_list) \<times> client" where
  "update_list st sku_arg quantity_arg customer_id operation =
     (case validate_sku sku_arg of
        Inl err \<Rightarrow> (Inl err, st)
      | Inr s \<Rightarrow>
     (case validate_quantity quantity_arg of
        Inl err \<Rightarrow> (Inl err, st)
      | Inr q \<Rightarrow>
     (case operation of
        PStr opn \<Rightarrow>
          if opn \<notin> set [''add'', ''remove'', ''set''] then
            (Inl (Exn ValidationError operation_message None), st)
          else if catalog st s = None then
            (Inl (Exn ItemNotFoundError (''Item with SKU '' @ str_int s @ '' not found'') None), st)
          else
            (case get_shopping_list st customer_id of
               (Inl err, st1) \<Rightarrow> (Inl err, st1)
             | (Inr shopping_list, st1) \<Rightarrow>
                 (case apply_operation opn s q (items shopping_list) of
                    Inl err \<Rightarrow> (Inl err, st1)
                  | Inr its \<Rightarrow>
                      (case customer_id of
                         PInt c \<Rightarrow>
                           (Inr (shopping_list\<lparr>items := its\<rparr>),
                            st1\<lparr>shopping_lists :=
                                  (shopping_lists st1)(c \<mapsto> shopping_list\<lparr>items := its\<rparr>)\<rparr>)
                       | _ \<Rightarrow> (Inr (shopping_list\<lparr>items := its\<rparr>), st1))))
      | _ \<Rightarrow>
          (Inl (Exn ValidationError operation_message None), st))))"

subsection \<open>Prices\<close>

text \<open>
  \<^verbatim>\<open>format_currency(value)\<close> is \<^verbatim>\<open>f"{value:.2f}"\<close>: the decimal text of the value rounded to
  two decimals (a tie goes to the even neighbour), with a minus sign in front of a negative
  value. A float is the rational number it denotes; the binary rounding of floats is not
  part of the model.
\<close>

definition round_half_even :: "rat \<Rightarrow> int" where
  "round_half_even x =
     (let f = \<lfloor>x\<rfloor>; d = x - of_int f in
      if d < 1 / 2 then f else if d > 1 / 2 then f + 1 else if even f then f else f + 1)"

definition format_currency :: "rat \<Rightarrow> string" where
  "format_currency v =
     (let n = nat (round_half_even (\<bar>v\<bar> * 100)) in
      (if v < 0 then [CHR ''-''] else []) @ str_nat (n div 100) @ [CHR ''.'']
        @ [digit_char (n div 10 mod 10), digit_char (n mod 10)])"

text \<open>
  \<^verbatim>\<open>float(s)\<close> on the texts that \<^verbatim>\<open>format_currency\<close> returns: an optional minus sign, digits,
  a point, digits. \<open>None\<close> is the \<^verbatim>\<open>ValueError\<close> of a text that is not a number; the other
  notations that Python reads (exponents, \<^verbatim>\<open>inf\<close>, blanks) are not modelled.
\<close>

definition is_digit :: "char \<Rightarrow> bool" where
  "is_digit c = (of_char CHR ''0'' \<le> (of_char c :: nat) \<and> (of_char c :: nat) \<le> of_char CHR ''9'')"

fun digits_val :: "string \<Rightarrow> nat \<Rightarrow> nat option" where
  "digits_val [] acc = Some acc"
| "digits_val (c # cs) acc =
     (if is_digit c then digits_val cs (10 * acc + (of_char c - of_char CHR ''0'')) else None)"

definition unsigned_decimal :: "string \<Rightarrow> rat option" where
  "unsigned_decimal s =
     (let ip = takeWhile (\<lambda>c. c \<noteq> CHR ''.'') s; rest = dropWhile (\<lambda>c. c \<noteq> CHR ''.'') s in
      case rest of
        [] \<Rightarrow> None
      | _ # fp \<Rightarrow>
          if ip = [] \<or> fp = [] then None
          else (case (digits_val ip 0, digits_val fp 0) of
                  (Some a, Some b) \<Rightarrow> Some (of_nat a + of_nat b / 10 ^ length fp)
                | _ \<Rightarrow> None))"

definition py_float :: "string \<Rightarrow> rat option" where
  "py_float s =
     (case s of
        [] \<Rightarrow> None
      | c # cs \<Rightarrow>
          if c = CHR ''-'' then map_option uminus (unsigned_decimal cs)
          else unsigned_decimal s)"

text \<open>
  \<^verbatim>\<open>get_item_info(sku)\<close>. The item returned is the dict of the catalog, so the assignment
  to its \<^verbatim>\<open>unit_price\<close> changes the catalog. A catalog item is a dict with three keys and
  hence true, so \<^verbatim>\<open>not item\<close> holds for the \<^verbatim>\<open>None\<close> of a missing key only.
\<close>

definition get_item_info :: "client \<Rightarrow> pyval \<Rightarrow> (exn + catalog_item) \<times> client" where
  "get_item_info st sku_arg =
     (case validate_sku sku_arg of
        Inl err \<Rightarrow> (Inl err, st)
      | Inr s \<Rightarrow>
          (case catalog st s of
             None \<Rightarrow>
               (Inl (Exn ItemNotFoundError (''Item with SKU '' @ str_int s @ '' not found'') None),
                st)
           | Some item \<Rightarrow>
               (case py_float (format_currency (unit_price item)) of
                  None \<Rightarrow> (Inl (Exn ValueError ''could not convert string to float'' None), st)
                | Some p \<Rightarrow>
                    (Inr (item\<lparr>unit_price := p\<rparr>),
                     st\<lparr>catalog := (catalog st)(s \<mapsto> item\<lparr>unit_price := p\<rparr>)\<rparr>))))"

section \<open>The states a client can reach\<close>

text \<open>A client starts as \<^verbatim>\<open>ShoppingListClient()\<close> and changes through calls of its three
  methods, with any arguments, whether they return or raise.\<close>

inductive reachable :: "client \<Rightarrow> bool" where
  reachable_init: "reachable init_client"
| reachable_get_shopping_list:
    "reachable st \<Longrightarrow> get_shopping_list st customer_id = (r, st') \<Longrightarrow> reachable st'"
| reachable_get_item_info:
    "reachable st \<Longrightarrow> get_item_info st sku_arg = (r, st') \<Longrightarrow> reachable st'"
| reachable_update_list:
    "reachable st \<Longrightarrow> update_list st sku_arg quantity_arg customer_id operation = (r, st')
       \<Longrightarrow> reachable st'"

section \<open>tools.py\<close>

text \<open>
  A tool returns a dict of plain data. \<open>pyobj\<close> is the data a result is made of; the dict of
  a shopping list and of a line item carry the keys of the source.
\<close>

datatype pyobj =
    ONone | OInt int | OStr string | OList "pyobj list" | ODict "(string \<times> pyobj) list"

definition line_item_dict :: "line_item \<Rightarrow> pyobj" where
  "line_item_dict item = ODict [(''sku'', OInt (sku item)), (''quantity'', OInt (quantity item))]"

definition shopping_list_dict :: "shopping_list \<Rightarrow> pyobj" where
  "shopping_list_dict l =
     ODict [(''list_id'', OInt (list_id l)), (''items'', OList (map line_item_dict (items l)))]"

text \<open>
  \<^verbatim>\<open>int(x)\<close>: \<^verbatim>\<open>TypeError\<close> on \<^verbatim>\<open>None\<close>, the integer itself, and on a string what Python's
  reader of integer literals gives. That reader is not code of this repository: it is the
  parameter \<open>int_of_str\<close>, with \<open>None\<close> for the \<^verbatim>\<open>ValueError\<close> of a text that is no integer.
  The message of a built-in exception is only logged and is left empty.
\<close>

definition py_int :: "(string \<Rightarrow> int option) \<Rightarrow> pyval \<Rightarrow> exn + int" where
  "py_int int_of_str v =
     (case v of
        PNone \<Rightarrow> Inl (Exn TypeError [] None)
      | PInt i \<Rightarrow> Inr i
      | PStr s \<Rightarrow> (case int_of_str s of None \<Rightarrow> Inl (Exn ValueError [] None) | Some i \<Rightarrow> Inr i))"

text \<open>\<^verbatim>\<open>ShoppingListValidator.validate_customer_id\<close>: only the \<^verbatim>\<open>ValueError\<close> of \<^verbatim>\<open>int\<close> is
  caught and replaced.\<close>

definition validate_customer_id :: "(string \<Rightarrow> int option) \<Rightarrow> pyval \<Rightarrow> exn + unit" where
  "validate_customer_id int_of_str customer_id =
     (case py_int int_of_str customer_id of
        Inl e \<Rightarrow>
          if exn_class e = ValueError then
            Inl (Exn ValidationError ''Customer ID must be a valid integer'' None)
          else Inl e
      | Inr customer_id_int \<Rightarrow>
          if customer_id_int < 0 then
            Inl (Exn ValidationError ''Customer ID must be a positive integer'' None)
          else Inr ())"

text \<open>
  \<^verbatim>\<open>ShoppingListValidator.validate_operation\<close>. Its message prints the set
  \<^verbatim>\<open>{'add', 'remove', 'set'}\<close>, in an order of the elements that Python does not fix: the
  text of the set is the parameter \<open>ops_repr\<close>. \<open>Inr\<close> carries the operation that passed.
\<close>

definition validate_operation :: "string \<Rightarrow> pyval \<Rightarrow> exn + string" where
  "validate_operation ops_repr operation =
     (case operation of
        PStr opn \<Rightarrow>
          if opn \<notin> {''add'', ''remove'', ''set''} then
            Inl (Exn ValidationError (''Operation must be one of: '' @ ops_repr) None)
          else Inr opn
      | _ \<Rightarrow> Inl (Exn ValidationError (''Operation must be one of: '' @ ops_repr) None))"

text \<open>
  \<^verbatim>\<open>GetShoppingListTool.forward\<close>. The handlers of its \<^verbatim>\<open>try\<close>, in the order of the source:
  a \<^verbatim>\<open>ValueError\<close> is replaced by a \<^verbatim>\<open>ValidationError\<close> that is raised to the caller
  (\<open>Inl\<close>); a \<^verbatim>\<open>ShoppingListError\<close> becomes a dict with the message and the \<^verbatim>\<open>error_code\<close>
  attribute of the exception; anything else becomes a dict with a fixed message.
\<close>

definition get_shopping_list_tool_handlers :: "exn \<Rightarrow> exn + pyobj" where
  "get_shopping_list_tool_handlers e =
     (if exn_class e = ValueError then
        Inl (Exn ValidationError ''Customer ID must be a valid integer'' None)
      else if isinstance_ShoppingListError (exn_class e) then
        Inr (ODict [(''error'', OStr (message e)),
                    (''error_code'', case error_code e of None \<Rightarrow> ONone | Some c \<Rightarrow> OStr c)])
      else Inr (ODict [(''error'', OStr ''An unexpected error occurred'')]))"

text \<open>The body of the \<^verbatim>\<open>try\<close>. The query \<^verbatim>\<open>{list_id: list_id, items: items}\<close> of \<^verbatim>\<open>_extract\<close>
  selects the two keys of the list; the dict it gives is not empty, so
  \<^verbatim>\<open>extract or {}\<close> is that dict.\<close>

definition get_shopping_list_tool_body ::
  "(string \<Rightarrow> int option) \<Rightarrow> client \<Rightarrow> pyval \<Rightarrow> (exn + pyobj) \<times> client" where
  "get_shopping_list_tool_body int_of_str st customer_id =
     (case validate_customer_id int_of_str customer_id of
        Inl e \<Rightarrow> (Inl e, st)
      | Inr _ \<Rightarrow>
          (case py_int int_of_str customer_id of
             Inl e \<Rightarrow> (Inl e, st)
           | Inr c \<Rightarrow>
               (case get_shopping_list st (PInt c) of
                  (Inl e, st1) \<Rightarrow> (Inl e, st1)
                | (Inr shopping_list, st1) \<Rightarrow> (Inr (shopping_list_dict shopping_list), st1))))"

definition GetShoppingListTool_forward ::
  "(string \<Rightarrow> int option) \<Rightarrow> client \<Rightarrow> pyval \<Rightarrow> (exn + pyobj) \<times> client" where
  "GetShoppingListTool_forward int_of_str st customer_id =
     (case get_shopping_list_tool_body int_of_str st customer_id of
        (Inl e, st1) \<Rightarrow> (get_shopping_list_tool_handlers e, st1)
      | (Inr d, st1) \<Rightarrow> (Inr d, st1))"

text \<open>
  \<^verbatim>\<open>UpdateListTool.forward\<close>. Its handlers: a \<^verbatim>\<open>ValidationError\<close>, an
  \<^verbatim>\<open>ItemNotFoundError\<close>, another \<^verbatim>\<open>ShoppingListError\<close>, any other exception.
\<close>

definition update_list_tool_handlers :: "exn \<Rightarrow> exn + pyobj" where
  "update_list_tool_handlers e =
     (if isinstance_ValidationError (exn_class e) then
        Inr (ODict [(''error'', OStr (message e)), (''error_code'', OStr ''VALIDATION_ERROR'')])
      else if isinstance_ItemNotFoundError (exn_class e) then
        Inr (ODict [(''error'', OStr (message e)), (''error_code'', OStr ''ITEM_NOT_FOUND'')])
      else if isinstance_ShoppingListError (exn_class e) then
        Inr (ODict [(''error'', OStr (message e)),
                    (''error_code'', case error_code e of None \<Rightarrow> ONone | Some c \<Rightarrow> OStr c)])
      else
        Inr (ODict [(''error'', OStr ''An unexpected error occurred''),
                    (''error_code'', OStr ''UNKNOWN_ERROR'')]))"

text \<open>The body of the \<^verbatim>\<open>try\<close>; the logging of the branches for \<^verbatim>\<open>add\<close> and \<^verbatim>\<open>set\<close> has no
  effect on the result. \<^verbatim>\<open>item['sku'] == sku\<close> compares the stored integer with the
  argument as it was passed.\<close>

definition update_list_tool_body ::
  "string \<Rightarrow> client \<Rightarrow> pyval \<Rightarrow> pyval \<Rightarrow> pyval \<Rightarrow> pyval \<Rightarrow> (exn + pyobj) \<times> client" where
  "update_list_tool_body ops_repr st sku_arg quantity_arg customer_id operation =
     (case validate_quantity quantity_arg of
        Inl e \<Rightarrow> (Inl e, st)
      | Inr q \<Rightarrow>
     (case validate_operation ops_repr operation of
        Inl e \<Rightarrow> (Inl e, st)
      | Inr opn \<Rightarrow>
     (case get_shopping_list st customer_id of
        (Inl e, st1) \<Rightarrow> (Inl e, st1)
      | (Inr current_list, st1) \<Rightarrow>
          (let item_exists = list_ex (\<lambda>item. PInt (sku item) = sku_arg) (items current_list) in
           if opn = ''remove'' \<and> \<not> item_exists then
             (Inl (Exn ItemNotFoundError
                    (''Item with SKU '' @ py_str sku_arg @ '' not found in list'') None), st1)
           else if opn = ''remove'' \<and> q \<le> 0 then
             (Inl (Exn ValidationError ''Quantity must be positive for removal'' None), st1)
           else
             (case update_list st1 sku_arg quantity_arg customer_id operation of
                (Inl e, st2) \<Rightarrow> (Inl e, st2)
              | (Inr updated_list, st2) \<Rightarrow>
                  (Inr (ODict
                     [(''status'', OStr ''success''),
                      (''message'', OStr ''Shopping list updated''),
                      (''list'', shopping_list_dict updated_list),
                      (''item'',
                         case find (\<lambda>item. PInt (sku item) = sku_arg) (items updated_list) of
                           None \<Rightarrow> ONone
                         | Some item \<Rightarrow> line_item_dict item)]),
                   st2))))))"

definition UpdateListTool_forward ::
  "string \<Rightarrow> client \<Rightarrow> pyval \<Rightarrow> pyval \<Rightarrow> pyval \<Rightarrow> pyval \<Rightarrow> (exn + pyobj) \<times> client" where
  "UpdateListTool_forward ops_repr st sku_arg quantity_arg customer_id operation =
     (case update_list_tool_body ops_repr st sku_arg quantity_arg customer_id operation of
        (Inl e, st1) \<Rightarrow> (update_list_tool_handlers e, st1)
      | (Inr d, st1) \<Rightarrow> (Inr d, st1))"

text \<open>\<^verbatim>\<open>d.get(key)\<close> on a result dict.\<close>

fun dict_get :: "pyobj \<Rightarrow> string \<Rightarrow> pyobj option" where
  "dict_get (ODict kvs) k = map_of kvs k"
| "dict_get _ k = None"

section \<open>Well-formed stores\<close>

text \<open>
  What \<^verbatim>\<open>client.py\<close> keeps true of every list it holds: the list is filed under its own
  id, which is not negative; no SKU occurs twice; no quantity is negative; every SKU is
  one of the catalog. The keys of the catalog stay the seven seeded SKUs.
\<close>

definition list_ok :: "client \<Rightarrow> int \<Rightarrow> shopping_list \<Rightarrow> bool" where
  "list_ok st c l =
     (list_id l = c \<and> 0 \<le> c \<and> distinct (map sku (items l)) \<and>
      (\<forall>i \<in> set (items l). 0 \<le> quantity i \<and> sku i \<in> dom (catalog st)))"

definition client_ok :: "client \<Rightarrow> bool" where
  "client_ok st =
     ((\<forall>c l. shopping_lists st c = Some l \<longrightarrow> list_ok st c l) \<and>
      dom (catalog st) = fst ` set seed_items)"

section \<open>An example store\<close>

text \<open>The store after \<^verbatim>\<open>update_list(101, 2, 0, "add")\<close> on a new client: customer 0 holds two
  apples.\<close>

definition example_client :: client where
  "example_client = snd (update_list init_client (PInt 101) (PInt 2) (PInt 0) (PStr ''add''))"

text \<open>One of the texts that Python prints for the set \<^verbatim>\<open>{'add', 'remove', 'set'}\<close>.\<close>

definition valid_operations_repr :: string where
  "valid_operations_repr =
     ''{'' @ [CHR 0x27] @ ''add'' @ [CHR 0x27] @ '', '' @ [CHR 0x27] @ ''remove'' @ [CHR 0x27]
       @ '', '' @ [CHR 0x27] @ ''set'' @ [CHR 0x27] @ ''}''"

text \<open>The exceptions that \<^verbatim>\<open>client.py\<close> and \<^verbatim>\<open>validators.py\<close> raise are instances of
  \<^verbatim>\<open>ValidationError\<close> or of \<^verbatim>\<open>ItemNotFoundError\<close>.\<close>

definition raised_ok :: "exn \<Rightarrow> bool" where
  "raised_ok e = (isinstance_ValidationError (exn_class e) \<or> isinstance_ItemNotFoundError (exn_class e))"

section \<open>Facts about lists of line items\<close>

text \<open>With no SKU twice in a list, changing the first entry of a SKU changes its only entry, and
  deleting it leaves no entry of that SKU.\<close>

lemma map_sku_set_quantity: "map sku (set_quantity s n xs) = map sku xs"
  by (induction xs) auto

lemma map_sku_upd:
  "map sku (map (\<lambda>i. if sku i = s then i\<lparr>quantity := n\<rparr> else i) xs) = map sku xs"
  by (induction xs) auto

lemma distinct_sku_Cons: "distinct (map sku (x # xs)) \<Longrightarrow> y \<in> set xs \<Longrightarrow> sku y \<noteq> sku x"
  by (auto simp: image_iff)

lemma distinct_map_remove1: "distinct (map f xs) \<Longrightarrow> distinct (map f (remove1 x xs))"
proof (induction xs)
  case Nil
  then show ?case by simp
next
  case (Cons a xs)
  have "set (remove1 x xs) \<subseteq> set xs" by (rule set_remove1_subset)
  then have "f ` set (remove1 x xs) \<subseteq> f ` set xs" by (rule image_mono)
  with Cons show ?case by auto
qed

lemma set_quantity_distinct:
  "distinct (map sku xs) \<Longrightarrow>
   set_quantity s n xs = map (\<lambda>i. if sku i = s then i\<lparr>quantity := n\<rparr> else i) xs"
proof (induction xs)
  case Nil
  then show ?case by simp
next
  case (Cons x xs)
  have "sku x = s \<Longrightarrow> map (\<lambda>i. if sku i = s then i\<lparr>quantity := n\<rparr> else i) xs = xs"
    using distinct_sku_Cons [OF Cons.prems] by (intro map_idI) auto
  with Cons show ?case by auto
qed

lemma remove1_distinct:
  "distinct (map sku xs) \<Longrightarrow> e \<in> set xs \<Longrightarrow> remove1 e xs = filter (\<lambda>i. sku i \<noteq> sku e) xs"
proof (induction xs)
  case Nil
  then show ?case by simp
next
  case (Cons x xs)
  show ?case
  proof (cases "x = e")
    case True
    then have "filter (\<lambda>i. sku i \<noteq> sku e) xs = xs"
      using distinct_sku_Cons [of x xs] Cons.prems(1) by (intro filter_True) auto
    with True show ?thesis by simp
  next
    case False
    with Cons show ?thesis by auto
  qed
qed

lemma set_set_quantity:
  "i \<in> set (set_quantity s n xs) \<Longrightarrow> i \<in> set xs \<or> (\<exists>j \<in> set xs. sku j = s \<and> i = j\<lparr>quantity := n\<rparr>)"
  by (induction xs) (auto split: if_splits)

lemma find_sku_None: "find (\<lambda>item. sku item = s) xs = None \<longleftrightarrow> s \<notin> sku ` set xs"
  by (auto simp: find_None_iff)

lemma find_sku_missing: "s \<notin> sku ` set xs \<Longrightarrow> find (\<lambda>item. sku item = s) xs = None"
  by (simp add: find_sku_None)

lemma find_sku_Some: "find (\<lambda>item. sku item = s) xs = Some e \<Longrightarrow> e \<in> set xs \<and> sku e = s"
  by (auto simp: find_Some_iff)

lemma find_sku_distinct:
  "distinct (map sku xs) \<Longrightarrow> e \<in> set xs \<Longrightarrow> find (\<lambda>item. sku item = sku e) xs = Some e"
proof (induction xs)
  case Nil
  then show ?case by simp
next
  case (Cons x xs)
  show ?case
  proof (cases "x = e")
    case True
    then show ?thesis by simp
  next
    case False
    with Cons.prems have "e \<in> set xs" by simp
    with distinct_sku_Cons [OF Cons.prems(1)] have "sku e \<noteq> sku x" by blast
    with Cons \<open>e \<in> set xs\<close> show ?thesis by simp
  qed
qed

section \<open>The validators and the update policies\<close>

lemma validate_quantity_Inr: "validate_quantity v = Inr q \<longleftrightarrow> v = PInt q \<and> 0 \<le> q"
  by (auto simp: validate_quantity_def split: pyval.splits)

lemma validate_sku_Inr: "validate_sku v = Inr s \<longleftrightarrow> v = PInt s \<and> 0 < s"
  by (auto simp: validate_sku_def split: pyval.splits)

lemma apply_operation_ok:
  assumes "apply_operation opn s q xs = Inr ys" "0 \<le> q" "distinct (map sku xs)"
    "\<forall>i \<in> set xs. 0 \<le> quantity i \<and> sku i \<in> D" "s \<in> D"
  shows "distinct (map sku ys) \<and> (\<forall>i \<in> set ys. 0 \<le> quantity i \<and> sku i \<in> D)"
  using assms
  by (auto simp: apply_operation_def Let_def map_sku_set_quantity validate_quantity_Inr find_sku_None
         distinct_map_remove1
       split: if_splits option.splits sum.splits dest!: find_sku_Some set_set_quantity)

lemma apply_remove_missing:
  "s \<notin> sku ` set xs \<Longrightarrow>
   apply_operation ''remove'' s q xs =
     Inl (Exn ItemNotFoundError
           (''Cannot remove - item with SKU '' @ str_int s @ '' not found in list'') None)"
  by (simp add: apply_operation_def find_sku_missing)

lemma apply_remove_present:
  assumes "distinct (map sku xs)" "e \<in> set xs"
  shows "apply_operation ''remove'' (sku e) q xs =
     (if quantity e < q then
        Inl (Exn ValidationError
              (''Cannot remove '' @ str_int q @ '' - only '' @ str_int (quantity e)
                 @ '' available'') None)
      else if q < quantity e then
        Inr (map (\<lambda>i. if sku i = sku e then i\<lparr>quantity := quantity e - q\<rparr> else i) xs)
      else Inr (filter (\<lambda>i. sku i \<noteq> sku e) xs))"
  using assms
  by (simp add: apply_operation_def find_sku_distinct set_quantity_distinct remove1_distinct)

lemma apply_add_missing:
  "s \<notin> sku ` set xs \<Longrightarrow> apply_operation ''add'' s q xs = Inr (xs @ [\<lparr>sku = s, quantity = q\<rparr>])"
  by (simp add: apply_operation_def find_sku_missing)

lemma apply_add_present:
  assumes "distinct (map sku xs)" "e \<in> set xs" "0 \<le> quantity e + q"
  shows "apply_operation ''add'' (sku e) q xs =
     Inr (map (\<lambda>i. if sku i = sku e then i\<lparr>quantity := quantity e + q\<rparr> else i) xs)"
  using assms
  by (simp add: apply_operation_def find_sku_distinct set_quantity_distinct validate_quantity_def)

lemma apply_add_add:
  assumes "distinct (map sku xs)" "\<forall>i \<in> set xs. 0 \<le> quantity i" "0 \<le> q1" "0 \<le> q2"
  shows "\<exists>ys zs. apply_operation ''add'' s q1 xs = Inr ys \<and>
           apply_operation ''add'' s q2 ys = Inr zs \<and>
           apply_operation ''add'' s (q1 + q2) xs = Inr zs"
proof (cases "s \<in> sku ` set xs")
  case False
  let ?ys = "xs @ [\<lparr>sku = s, quantity = q1\<rparr>]"
  let ?e = "\<lparr>sku = s, quantity = q1\<rparr>"
  have d: "distinct (map sku ?ys)" using assms(1) False by simp
  have "map (\<lambda>i. if sku i = s then f i else i) xs = xs" for f :: "line_item \<Rightarrow> line_item"
    using False by (intro map_idI) auto
  then have "apply_operation ''add'' s q2 ?ys = Inr (xs @ [\<lparr>sku = s, quantity = q1 + q2\<rparr>])"
    using apply_add_present [OF d, of ?e q2] assms(3,4) by simp
  with False show ?thesis by (simp add: apply_add_missing)
next
  case True
  then obtain e where e: "e \<in> set xs" "sku e = s" by auto
  let ?ys = "map (\<lambda>i. if sku i = s then i\<lparr>quantity := quantity e + q1\<rparr> else i) xs"
  let ?e = "e\<lparr>quantity := quantity e + q1\<rparr>"
  have qe: "0 \<le> quantity e" using assms(2) e(1) by simp
  have 1: "apply_operation ''add'' s q1 xs = Inr ?ys"
    using apply_add_present [OF assms(1) e(1), of q1] qe assms(3) e(2) by simp
  have d: "distinct (map sku ?ys)" unfolding map_sku_upd by (rule assms(1))
  have m: "?e \<in> set ?ys" using e by force
  have 2: "apply_operation ''add'' s q2 ?ys =
      Inr (map (\<lambda>i. if sku i = s then i\<lparr>quantity := quantity e + (q1 + q2)\<rparr> else i) xs)"
    using apply_add_present [OF d m, of q2] qe assms(3,4) e(2)
    by (simp add: comp_def if_distrib add.assoc cong: if_cong)
  have 3: "apply_operation ''add'' s (q1 + q2) xs =
      Inr (map (\<lambda>i. if sku i = s then i\<lparr>quantity := quantity e + (q1 + q2)\<rparr> else i) xs)"
    using apply_add_present [OF assms(1) e(1), of "q1 + q2"] qe assms(3,4) e(2) by simp
  from 1 2 3 show ?thesis by simp
qed

lemma apply_set_zero:
  assumes "distinct (map sku xs)"
  shows "apply_operation ''set'' s 0 xs = Inr (filter (\<lambda>i. sku i \<noteq> s) xs)"
proof (cases "s \<in> sku ` set xs")
  case True
  then obtain e where e: "e \<in> set xs" "sku e = s" by auto
  from find_sku_distinct [OF assms e(1)] remove1_distinct [OF assms e(1)] e(2)
  show ?thesis by (simp add: apply_operation_def)
next
  case False
  then have "filter (\<lambda>i. sku i \<noteq> s) xs = xs" by (intro filter_True) auto
  with False show ?thesis by (simp add: apply_operation_def find_sku_missing)
qed

lemma apply_set_positive:
  assumes "distinct (map sku xs)" "0 < q"
  shows "apply_operation ''set'' s q xs =
     Inr (if s \<in> sku ` set xs then map (\<lambda>i. if sku i = s then i\<lparr>quantity := q\<rparr> else i) xs
          else xs @ [\<lparr>sku = s, quantity = q\<rparr>])"
proof (cases "s \<in> sku ` set xs")
  case True
  then obtain e where e: "e \<in> set xs" "sku e = s" by auto
  from find_sku_distinct [OF assms(1) e(1)] e(2) assms True
  show ?thesis by (simp add: apply_operation_def set_quantity_distinct)
next
  case False
  with assms(2) show ?thesis by (simp add: apply_operation_def find_sku_missing)
qed

section \<open>The calls of the client, case by case\<close>

lemma get_shopping_list_cases:
  assumes "get_shopping_list st c = (r, st')"
  shows "(\<exists>e. r = Inl e \<and> st' = st \<and> (\<forall>k. c = PInt k \<longrightarrow> k < 0)) \<or>
         (\<exists>k l. c = PInt k \<and> 0 \<le> k \<and> r = Inr l \<and>
            ((shopping_lists st k = Some l \<and> st' = st) \<or>
             (shopping_lists st k = None \<and> l = \<lparr>list_id = k, items = []\<rparr> \<and>
              st' = st\<lparr>shopping_lists := (shopping_lists st)(k \<mapsto> l)\<rparr>)))"
  using assms
  by (auto simp: get_shopping_list_def split: pyval.splits if_splits option.splits)

lemma get_shopping_list_present:
  "shopping_lists st k = Some l \<Longrightarrow> 0 \<le> k \<Longrightarrow> get_shopping_list st (PInt k) = (Inr l, st)"
  by (simp add: get_shopping_list_def)

lemma get_shopping_list_total:
  "0 \<le> k \<Longrightarrow> \<exists>l st1. get_shopping_list st (PInt k) = (Inr l, st1)"
  by (simp add: get_shopping_list_def split: option.splits)

lemma get_shopping_list_other:
  assumes "get_shopping_list st c = (r, st')" "c \<noteq> PInt k2"
  shows "shopping_lists st' k2 = shopping_lists st k2"
  using get_shopping_list_cases [OF assms(1)] assms(2) by (auto split: if_splits)

lemma get_shopping_list_fst_cong:
  "shopping_lists st' k = shopping_lists st k \<Longrightarrow>
   fst (get_shopping_list st' (PInt k)) = fst (get_shopping_list st (PInt k))"
  by (simp add: get_shopping_list_def split: option.splits)

lemma get_shopping_list_fst_unchanged:
  assumes "get_shopping_list st c = (r, st1)"
  shows "fst (get_shopping_list st1 c') = fst (get_shopping_list st c')"
  using get_shopping_list_cases [OF assms]
  by (elim disjE exE conjE) (auto simp: get_shopping_list_def split: pyval.splits option.splits)

lemma get_item_info_cases:
  assumes "get_item_info st a = (r, st')"
  shows "(\<exists>e. r = Inl e \<and> st' = st) \<or>
         (\<exists>s item p. a = PInt s \<and> 0 < s \<and> catalog st s = Some item \<and>
            py_float (format_currency (unit_price item)) = Some p \<and>
            r = Inr (item\<lparr>unit_price := p\<rparr>) \<and>
            st' = st\<lparr>catalog := (catalog st)(s \<mapsto> item\<lparr>unit_price := p\<rparr>)\<rparr>)"
  using assms
  by (auto simp: get_item_info_def validate_sku_Inr split: sum.splits option.splits)

lemma update_list_cases:
  assumes "update_list st a b c d = (r, st')"
  shows "(\<exists>e. r = Inl e \<and> st' = st) \<or>
         (\<exists>s q opn l st1 k. a = PInt s \<and> 0 < s \<and> b = PInt q \<and> 0 \<le> q \<and> d = PStr opn \<and>
            opn \<in> {''add'', ''remove'', ''set''} \<and> catalog st s \<noteq> None \<and> c = PInt k \<and>
            get_shopping_list st c = (Inr l, st1) \<and>
            (case apply_operation opn s q (items l) of
               Inl e \<Rightarrow> r = Inl e \<and> st' = st1
             | Inr its \<Rightarrow> r = Inr (l\<lparr>items := its\<rparr>) \<and>
                 st' = st1\<lparr>shopping_lists := (shopping_lists st1)(k \<mapsto> l\<lparr>items := its\<rparr>)\<rparr>))"
proof (cases "validate_sku a")
  case (Inl e)
  with assms show ?thesis by (auto simp: update_list_def)
next
  case (Inr s)
  note s = this
  show ?thesis
  proof (cases "validate_quantity b")
    case (Inl e)
    with assms s show ?thesis by (auto simp: update_list_def)
  next
    case (Inr q)
    note q = this
    show ?thesis
    proof (cases "\<exists>opn. d = PStr opn \<and> opn \<in> {''add'', ''remove'', ''set''} \<and> catalog st s \<noteq> None")
      case False
      with assms s q show ?thesis
        by (auto simp: update_list_def split: pyval.splits if_splits)
    next
      case True
      then obtain opn where d: "d = PStr opn" "opn \<in> {''add'', ''remove'', ''set''}"
        "catalog st s \<noteq> None" by blast
      obtain r1 st1 where g: "get_shopping_list st c = (r1, st1)" by (cases "get_shopping_list st c")
      show ?thesis
      proof (cases r1)
        case (Inl e)
        with get_shopping_list_cases [OF g] have "st1 = st" by auto
        with assms s q d g Inl show ?thesis by (auto simp: update_list_def)
      next
        case (Inr l)
        with get_shopping_list_cases [OF g] obtain k where k: "c = PInt k" by auto
        from assms s q d g Inr k show ?thesis
          by (auto simp: update_list_def validate_sku_Inr validate_quantity_Inr split: sum.splits)
      qed
    qed
  qed
qed

lemma update_list_eval:
  assumes "0 < s" "0 \<le> q" "opn \<in> {''add'', ''remove'', ''set''}" "catalog st s \<noteq> None"
    "get_shopping_list st (PInt k) = (Inr l, st1)"
  shows "update_list st (PInt s) (PInt q) (PInt k) (PStr opn) =
     (case apply_operation opn s q (items l) of
        Inl e \<Rightarrow> (Inl e, st1)
      | Inr its \<Rightarrow> (Inr (l\<lparr>items := its\<rparr>),
                    st1\<lparr>shopping_lists := (shopping_lists st1)(k \<mapsto> l\<lparr>items := its\<rparr>)\<rparr>))"
  using assms by (auto simp: update_list_def validate_sku_def validate_quantity_def split: sum.splits)

lemma update_list_other:
  assumes "update_list st a b c d = (r, st')" "c \<noteq> PInt k2"
  shows "shopping_lists st' k2 = shopping_lists st k2"
  using update_list_cases [OF assms(1)]
proof (elim disjE exE conjE)
  fix e assume "st' = st" then show ?thesis by simp
next
  fix s q opn l st1 k
  assume h: "c = PInt k" "get_shopping_list st c = (Inr l, st1)"
    and ap: "case apply_operation opn s q (items l) of
               Inl e \<Rightarrow> r = Inl e \<and> st' = st1
             | Inr its \<Rightarrow> r = Inr (l\<lparr>items := its\<rparr>) \<and>
                 st' = st1\<lparr>shopping_lists := (shopping_lists st1)(k \<mapsto> l\<lparr>items := its\<rparr>)\<rparr>"
  have "shopping_lists st1 k2 = shopping_lists st k2"
    by (rule get_shopping_list_other [OF h(2) assms(2)])
  with ap h(1) assms(2) show ?thesis by (auto split: sum.splits)
qed

lemma client_upd_upd:
  "st\<lparr>shopping_lists := (shopping_lists st)(k \<mapsto> a)\<rparr>
     \<lparr>shopping_lists := (shopping_lists (st\<lparr>shopping_lists := (shopping_lists st)(k \<mapsto> a)\<rparr>))(k \<mapsto> b)\<rparr>
   = st\<lparr>shopping_lists := (shopping_lists st)(k \<mapsto> b)\<rparr>"
  by simp

lemma client_upd_same:
  "shopping_lists st k = Some l \<Longrightarrow> st\<lparr>shopping_lists := (shopping_lists st)(k \<mapsto> l)\<rparr> = st"
  by (simp add: map_upd_triv)

section \<open>Every reachable store is well formed\<close>

lemma list_ok_catalog: "dom (catalog st') = dom (catalog st) \<Longrightarrow> list_ok st' c l = list_ok st c l"
  by (simp add: list_ok_def)

lemma client_ok_upd:
  "client_ok st \<Longrightarrow> list_ok st k l \<Longrightarrow>
   client_ok (st\<lparr>shopping_lists := (shopping_lists st)(k \<mapsto> l)\<rparr>)"
  by (auto simp: client_ok_def list_ok_def)

lemma dom_upd_same: "m k = Some v \<Longrightarrow> dom (m(k \<mapsto> w)) = dom m"
  by auto

lemma list_ok_empty: "0 \<le> k \<Longrightarrow> list_ok st k \<lparr>list_id = k, items = []\<rparr>"
  by (simp add: list_ok_def)

lemma client_ok_get_shopping_list:
  assumes "client_ok st" "get_shopping_list st c = (r, st')"
  shows "client_ok st'"
  using get_shopping_list_cases [OF assms(2)] assms(1)
  by (elim disjE exE conjE) (simp_all add: client_ok_upd list_ok_empty)

lemma get_shopping_list_Inr_ok:
  assumes "client_ok st" "get_shopping_list st c = (Inr l, st')"
  shows "\<exists>k. c = PInt k \<and> shopping_lists st' k = Some l \<and> list_ok st' k l"
proof -
  have ok': "client_ok st'" by (rule client_ok_get_shopping_list [OF assms])
  from get_shopping_list_cases [OF assms(2)]
  obtain k where "c = PInt k" "shopping_lists st' k = Some l" by auto
  with ok' show ?thesis by (simp add: client_ok_def)
qed

lemma client_ok_get_item_info:
  assumes "client_ok st" "get_item_info st a = (r, st')"
  shows "client_ok st'"
proof -
  have "shopping_lists st' = shopping_lists st \<and> dom (catalog st') = dom (catalog st)"
    using get_item_info_cases [OF assms(2)]
    by (elim disjE exE conjE) (simp_all add: dom_upd_same del: dom_fun_upd)
  then show ?thesis using assms(1) by (auto simp: client_ok_def list_ok_def)
qed

lemma client_ok_update_list:
  assumes "client_ok st" "update_list st a b c d = (r, st')"
  shows "client_ok st'"
  using update_list_cases [OF assms(2)]
proof (elim disjE exE conjE)
  fix e assume "st' = st" then show ?thesis using assms(1) by simp
next
  fix s q opn l st1 k
  assume h: "0 \<le> q" "catalog st s \<noteq> None" "c = PInt k" "get_shopping_list st c = (Inr l, st1)"
    and ap: "case apply_operation opn s q (items l) of
               Inl e \<Rightarrow> r = Inl e \<and> st' = st1
             | Inr its \<Rightarrow> r = Inr (l\<lparr>items := its\<rparr>) \<and>
                 st' = st1\<lparr>shopping_lists := (shopping_lists st1)(k \<mapsto> l\<lparr>items := its\<rparr>)\<rparr>"
  have ok1: "client_ok st1" by (rule client_ok_get_shopping_list [OF assms(1) h(4)])
  have cat1: "catalog st1 = catalog st"
    using get_shopping_list_cases [OF h(4)] by auto
  from get_shopping_list_Inr_ok [OF assms(1) h(4)] h(3)
  have l: "shopping_lists st1 k = Some l" "list_ok st1 k l" by auto
  show ?thesis
  proof (cases "apply_operation opn s q (items l)")
    case (Inl e)
    with ap ok1 show ?thesis by simp
  next
    case (Inr its)
    from l(2) have pre: "distinct (map sku (items l))"
      "\<forall>i \<in> set (items l). 0 \<le> quantity i \<and> sku i \<in> dom (catalog st1)"
      by (auto simp: list_ok_def)
    have sD: "s \<in> dom (catalog st1)" using h(2) cat1 by auto
    from apply_operation_ok [OF Inr h(1) pre sD] l(2)
    have "list_ok st1 k (l\<lparr>items := its\<rparr>)" by (simp add: list_ok_def)
    with Inr ap ok1 show ?thesis by (simp add: client_ok_upd)
  qed
qed

lemma client_ok_init: "client_ok init_client"
  by (simp add: client_ok_def init_client_def dom_map_of_conv_image_fst)

lemma reachable_client_ok: "reachable st \<Longrightarrow> client_ok st"
  by (induction rule: reachable.induct)
     (auto intro: client_ok_init client_ok_get_shopping_list client_ok_get_item_info
        client_ok_update_list)

lemma reachable_list_facts:
  assumes "reachable st" "shopping_lists st c = Some l"
  shows "list_id l = c" "0 \<le> c" "distinct (map sku (items l))"
    "\<forall>i \<in> set (items l). 0 \<le> quantity i \<and> catalog st (sku i) \<noteq> None"
proof -
  from reachable_client_ok [OF assms(1)] assms(2) have "list_ok st c l"
    by (simp add: client_ok_def)
  then show "list_id l = c" "0 \<le> c" "distinct (map sku (items l))"
    "\<forall>i \<in> set (items l). 0 \<le> quantity i \<and> catalog st (sku i) \<noteq> None"
    by (auto simp: list_ok_def)
qed

lemma seed_sku_pos: "s \<in> fst ` set seed_items \<Longrightarrow> 0 < s"
  by (auto simp: seed_items_def)

lemma client_ok_catalog_pos:
  assumes "client_ok st" "catalog st s \<noteq> None"
  shows "0 < s"
proof -
  from assms(2) have "s \<in> dom (catalog st)" by (simp add: dom_def)
  with assms(1) have "s \<in> fst ` set seed_items" by (simp add: client_ok_def)
  then show ?thesis by (rule seed_sku_pos)
qed

section \<open>Concrete runs\<close>

lemma str_int_examples:
  "str_int 101 = ''101''" "str_int 999 = ''999''" "str_int 5 = ''5''" "str_int 2 = ''2''"
  by code_simp+

lemma init_catalog_101: "catalog init_client 101 =
    Some \<lparr>item_sku = 101, item_name = ''Apple'', unit_price = 350 / 100\<rparr>"
  by (simp add: init_client_def seed_items_def)

lemma init_catalog_102: "catalog init_client 102 =
    Some \<lparr>item_sku = 102, item_name = ''Bread'', unit_price = 500 / 100\<rparr>"
  by (simp add: init_client_def seed_items_def)

lemma init_catalog_999: "catalog init_client 999 = None"
  by (simp add: init_client_def seed_items_def)

lemma init_lists: "shopping_lists init_client = Map.empty"
  by (simp add: init_client_def)

lemma get_shopping_list_init:
  "0 \<le> k \<Longrightarrow> get_shopping_list init_client (PInt k) =
     (Inr \<lparr>list_id = k, items = []\<rparr>,
      init_client\<lparr>shopping_lists := [k \<mapsto> \<lparr>list_id = k, items = []\<rparr>]\<rparr>)"
  by (simp add: get_shopping_list_def init_lists)

lemma example_client_eq:
  "example_client =
     init_client\<lparr>shopping_lists := [0 \<mapsto> \<lparr>list_id = 0, items = [\<lparr>sku = 101, quantity = 2\<rparr>]\<rparr>]\<rparr>"
  unfolding example_client_def
  using update_list_eval [OF _ _ _ _ get_shopping_list_init, of 101 2 "''add''" 0]
  by (simp add: init_catalog_101 apply_add_missing)

lemma reachable_example_client: "reachable example_client"
  unfolding example_client_def
  by (rule reachable_update_list [OF reachable_init]) (rule surjective_pairing)

lemma get_shopping_list_example:
  "get_shopping_list example_client (PInt 0) =
     (Inr \<lparr>list_id = 0, items = [\<lparr>sku = 101, quantity = 2\<rparr>]\<rparr>, example_client)"
  by (rule get_shopping_list_present) (simp_all add: example_client_eq)

lemma example_catalog: "catalog example_client = catalog init_client"
  by (simp add: example_client_eq)

section \<open>Prices: the text of a price and its value\<close>

text \<open>\<^verbatim>\<open>float\<close> reads back what \<^verbatim>\<open>format_currency\<close> prints: the price rounded to a whole
  number of hundredths.\<close>

lemma of_char_digit_char: "d < 10 \<Longrightarrow> (of_char (digit_char d) :: nat) = 48 + d"
  by (simp add: digit_char_def)

lemma is_digit_digit_char: "d < 10 \<Longrightarrow> is_digit (digit_char d)"
  by (simp add: is_digit_def of_char_digit_char)

lemma is_digit_not_point: "is_digit c \<Longrightarrow> c \<noteq> CHR ''.'' \<and> c \<noteq> CHR ''-''"
  by (auto simp: is_digit_def)

lemma digits_val_append:
  "digits_val (xs @ ys) acc =
     (case digits_val xs acc of None \<Rightarrow> None | Some a \<Rightarrow> digits_val ys a)"
  by (induction xs arbitrary: acc) auto

lemma digits_val_digit: "d < 10 \<Longrightarrow> digits_val [digit_char d] acc = Some (10 * acc + d)"
  by (simp add: is_digit_digit_char of_char_digit_char)

lemma digits_val_str_nat: "digits_val (str_nat n) 0 = Some n"
proof (induction n rule: str_nat.induct)
  case (1 n)
  show ?case
  proof (cases "n < 10")
    case True
    then show ?thesis by (subst str_nat.simps) (simp add: is_digit_digit_char of_char_digit_char)
  next
    case False
    with 1 have "digits_val (str_nat (n div 10)) 0 = Some (n div 10)" by simp
    with False show ?thesis
      by (subst str_nat.simps) (simp add: digits_val_append is_digit_digit_char of_char_digit_char)
  qed
qed

lemma str_nat_digits: "c \<in> set (str_nat n) \<Longrightarrow> is_digit c"
proof (induction n rule: str_nat.induct)
  case (1 n)
  show ?case
  proof (cases "n < 10")
    case True
    with "1.prems" show ?thesis
      by (subst (asm) str_nat.simps) (simp add: is_digit_digit_char)
  next
    case False
    from "1.prems" have "c \<in> set (str_nat (n div 10) @ [digit_char (n mod 10)])"
      by (subst (asm) str_nat.simps) (simp add: False)
    with False "1.IH" show ?thesis by (auto simp: is_digit_digit_char)
  qed
qed

lemma str_nat_not_Nil: "str_nat n \<noteq> []"
  by (subst str_nat.simps) simp

lemma unsigned_decimal_digits:
  assumes "d1 < 10" "d2 < 10"
  shows "unsigned_decimal (str_nat a @ [CHR ''.'', digit_char d1, digit_char d2]) =
     Some (of_nat a + of_nat (10 * d1 + d2) / 100)"
proof -
  have np: "\<And>c. c \<in> set (str_nat a) \<Longrightarrow> c \<noteq> CHR ''.''"
    using str_nat_digits is_digit_not_point by blast
  have t: "takeWhile (\<lambda>c. c \<noteq> CHR ''.'') (str_nat a @ [CHR ''.'', digit_char d1, digit_char d2])
      = str_nat a"
    using np by (simp add: takeWhile_append2)
  have d: "dropWhile (\<lambda>c. c \<noteq> CHR ''.'') (str_nat a @ [CHR ''.'', digit_char d1, digit_char d2])
      = [CHR ''.'', digit_char d1, digit_char d2]"
    using np by (simp add: dropWhile_append2)
  have f: "digits_val [digit_char d1, digit_char d2] 0 = Some (10 * d1 + d2)"
    using assms by (simp add: is_digit_digit_char of_char_digit_char)
  show ?thesis
    unfolding unsigned_decimal_def t d Let_def
    using f by (simp add: str_nat_not_Nil digits_val_str_nat)
qed

lemma round_half_even_nonneg: "0 \<le> x \<Longrightarrow> 0 \<le> round_half_even x"
  by (auto simp: round_half_even_def Let_def)

lemma round_half_even_near: "\<bar>of_int (round_half_even x) - x\<bar> \<le> 1 / 2"
proof -
  have "of_int \<lfloor>x\<rfloor> \<le> x" "x < of_int \<lfloor>x\<rfloor> + 1" by linarith+
  then show ?thesis by (auto simp: round_half_even_def Let_def)
qed

lemma two_digits: "10 * (n div 10 mod 10) + n mod 10 = (n mod 100 :: nat)"
  using mod_mult2_eq [of n 10 10] by simp

lemma cents_value: "(of_nat (n div 100) :: rat) + of_nat (n mod 100) / 100 = of_nat n / 100"
proof -
  have "(of_nat n :: rat) = of_nat (100 * (n div 100) + n mod 100)" by simp
  also have "\<dots> = 100 * of_nat (n div 100) + of_nat (n mod 100)" by (simp only: of_nat_add of_nat_mult of_nat_numeral)
  finally show ?thesis by simp
qed

lemma py_float_format_currency:
  "py_float (format_currency v) =
     Some (if v < 0 then - (of_nat (nat (round_half_even (\<bar>v\<bar> * 100))) / 100)
           else of_nat (nat (round_half_even (\<bar>v\<bar> * 100))) / 100)"
proof -
  define n where "n = nat (round_half_even (\<bar>v\<bar> * 100))"
  define body where "body = str_nat (n div 100) @ [CHR ''.'', digit_char (n div 10 mod 10), digit_char (n mod 10)]"
  have u: "unsigned_decimal body = Some (of_nat n / 100)"
    unfolding body_def by (simp add: unsigned_decimal_digits two_digits cents_value)
  obtain c cs where sn: "str_nat (n div 100) = c # cs"
    using str_nat_not_Nil [of "n div 100"] by (cases "str_nat (n div 100)") auto
  then have "c \<in> set (str_nat (n div 100))" by simp
  then have c: "c \<noteq> CHR ''-''" using str_nat_digits is_digit_not_point by blast
  have b: "body = c # (cs @ [CHR ''.'', digit_char (n div 10 mod 10), digit_char (n mod 10)])"
    by (simp add: body_def sn)
  have pf: "py_float (c # rest) = unsigned_decimal (c # rest)" for rest
    using c by (simp add: py_float_def)
  have f: "format_currency v = (if v < 0 then [CHR ''-''] else []) @ body"
    by (simp add: format_currency_def Let_def n_def body_def)
  show ?thesis
  proof (cases "v < 0")
    case True
    then show ?thesis unfolding f using u by (simp add: py_float_def n_def)
  next
    case False
    have "py_float body = unsigned_decimal body"
      unfolding b by (rule pf)
    with False show ?thesis unfolding f using u by (simp add: n_def)
  qed
qed

lemma format_currency_shape:
  "\<exists>ds d1 d2. format_currency v = ds @ [CHR ''.'', d1, d2] \<and> is_digit d1 \<and> is_digit d2"
proof -
  define n where "n = nat (round_half_even (\<bar>v\<bar> * 100))"
  have "format_currency v =
      ((if v < 0 then [CHR ''-''] else []) @ str_nat (n div 100))
        @ [CHR ''.'', digit_char (n div 10 mod 10), digit_char (n mod 10)]"
    by (simp add: format_currency_def Let_def n_def)
  moreover have "is_digit (digit_char (n div 10 mod 10))" "is_digit (digit_char (n mod 10))"
    by (simp_all add: is_digit_digit_char)
  ultimately show ?thesis by blast
qed

lemma py_float_format_currency_value:
  assumes "py_float (format_currency v) = Some p"
  shows "(\<exists>n::int. p = of_int n / 100) \<and> \<bar>p - v\<bar> \<le> 1 / 200"
proof -
  define r where "r = round_half_even (\<bar>v\<bar> * 100)"
  have r0: "0 \<le> r" unfolding r_def by (rule round_half_even_nonneg) simp
  then have nr: "(of_nat (nat r) :: rat) = of_int r" by simp
  from assms have p: "p = (if v < 0 then - (of_int r / 100) else of_int r / 100)"
    unfolding py_float_format_currency r_def [symmetric] nr by simp
  have near: "\<bar>of_int r - \<bar>v\<bar> * 100\<bar> \<le> 1 / 2" unfolding r_def by (rule round_half_even_near)
  have 1: "\<exists>n::int. p = of_int n / 100"
  proof (cases "v < 0")
    case True
    with p have "p = of_int (- r) / 100" by simp
    then show ?thesis by blast
  next
    case False
    with p show ?thesis by auto
  qed
  have 2: "\<bar>p - v\<bar> \<le> 1 / 200"
    using near p by (cases "v < 0") (auto simp: abs_if field_simps split: if_splits)
  from 1 2 show ?thesis by blast
qed

lemma format_apple: "format_currency (7 / 2) = ''3.50''"
  by code_simp

lemma float_apple: "py_float ''3.50'' = Some (7 / 2)"
  by code_simp

lemma unit_price_apple:
  "unit_price \<lparr>item_sku = 101, item_name = ''Apple'', unit_price = 350 / 100\<rparr> = 7 / 2"
  by simp

section \<open>The tools\<close>

lemma validate_operation_remove: "validate_operation ops (PStr ''remove'') = Inr ''remove''"
  by (simp add: validate_operation_def)

lemma update_tool_remove_zero:
  assumes "shopping_lists st k = Some l" "0 \<le> k" "i \<in> set (items l)"
  shows "UpdateListTool_forward ops st (PInt (sku i)) (PInt 0) (PInt k) (PStr ''remove'') =
     (Inr (ODict [(''error'', OStr ''Quantity must be positive for removal''),
                  (''error_code'', OStr ''VALIDATION_ERROR'')]), st)"
proof -
  have g: "get_shopping_list st (PInt k) = (Inr l, st)"
    by (rule get_shopping_list_present [OF assms(1,2)])
  have ex: "list_ex (\<lambda>item. PInt (sku item) = PInt (sku i)) (items l)"
    using assms(3) by (auto simp: list_ex_iff)
  have "update_list_tool_body ops st (PInt (sku i)) (PInt 0) (PInt k) (PStr ''remove'') =
      (Inl (Exn ValidationError ''Quantity must be positive for removal'' None), st)"
    using ex by (simp add: update_list_tool_body_def validate_quantity_def validate_operation_remove g)
  then show ?thesis
    by (simp add: UpdateListTool_forward_def update_list_tool_handlers_def)
qed

lemma update_tool_negative:
  assumes "q < 0"
  shows "UpdateListTool_forward ops st a (PInt q) c d =
     (Inr (ODict [(''error'', OStr ''Quantity cannot be negative''),
                  (''error_code'', OStr ''VALIDATION_ERROR'')]), st)"
  using assms
  by (simp add: UpdateListTool_forward_def update_list_tool_body_def validate_quantity_def
        update_list_tool_handlers_def)

text \<open>Every exception that reaches the handlers of \<^verbatim>\<open>UpdateListTool.forward\<close> is a
  \<^verbatim>\<open>ValidationError\<close> or an \<^verbatim>\<open>ItemNotFoundError\<close>, so each of its error results carries the
  code \<^verbatim>\<open>VALIDATION_ERROR\<close> or \<^verbatim>\<open>ITEM_NOT_FOUND\<close>, and no exception leaves the tool.\<close>

lemma validate_sku_raises: "validate_sku v = Inl e \<Longrightarrow> raised_ok e"
  by (auto simp: validate_sku_def raised_ok_def split: pyval.splits if_splits)

lemma validate_quantity_raises: "validate_quantity v = Inl e \<Longrightarrow> raised_ok e"
  by (auto simp: validate_quantity_def raised_ok_def split: pyval.splits if_splits)

lemma validate_operation_raises: "validate_operation ops v = Inl e \<Longrightarrow> raised_ok e"
  by (auto simp: validate_operation_def raised_ok_def split: pyval.splits if_splits)

lemma get_shopping_list_raises: "get_shopping_list st c = (Inl e, st') \<Longrightarrow> raised_ok e"
  by (auto simp: get_shopping_list_def raised_ok_def split: pyval.splits if_splits option.splits)

lemma apply_operation_raises: "apply_operation opn s q its = Inl e \<Longrightarrow> raised_ok e"
  by (auto simp: apply_operation_def Let_def raised_ok_def
      split: if_splits option.splits sum.splits dest: validate_quantity_raises [unfolded raised_ok_def])

lemma update_list_raises:
  assumes "update_list st a b c d = (Inl e, st')"
  shows "raised_ok e"
proof (cases "validate_sku a")
  case (Inl x)
  with assms validate_sku_raises [OF Inl] show ?thesis by (simp add: update_list_def)
next
  case s: (Inr s)
  show ?thesis
  proof (cases "validate_quantity b")
    case (Inl x)
    with assms s validate_quantity_raises [OF Inl] show ?thesis by (simp add: update_list_def)
  next
    case q: (Inr q)
    from update_list_cases [OF assms] show ?thesis
    proof (elim disjE exE conjE)
      fix s' q' opn l st1 k
      assume g: "get_shopping_list st c = (Inr l, st1)"
        and ap: "case apply_operation opn s' q' (items l) of
               Inl e' \<Rightarrow> Inl e = Inl e' \<and> st' = st1
             | Inr its \<Rightarrow> Inl e = Inr (l\<lparr>items := its\<rparr>) \<and>
                 st' = st1\<lparr>shopping_lists := (shopping_lists st1)(k \<mapsto> l\<lparr>items := its\<rparr>)\<rparr>"
      then have "apply_operation opn s' q' (items l) = Inl e" by (auto split: sum.splits)
      then show ?thesis by (rule apply_operation_raises)
    next
      fix e' assume "Inl e = Inl e'" "st' = st"
      with assms s q show ?thesis
        by (auto simp: update_list_def raised_ok_def split: pyval.splits if_splits prod.splits sum.splits
              dest: get_shopping_list_raises [unfolded raised_ok_def]
                    apply_operation_raises [unfolded raised_ok_def])
    qed
  qed
qed

lemma update_list_tool_body_raises:
  assumes "update_list_tool_body ops st a b c d = (Inl e, st')"
  shows "raised_ok e"
  using assms
  by (auto simp: update_list_tool_body_def Let_def raised_ok_def
        split: sum.splits prod.splits if_splits
        dest: validate_quantity_raises [unfolded raised_ok_def]
              validate_operation_raises [unfolded raised_ok_def]
              get_shopping_list_raises [unfolded raised_ok_def]
              update_list_raises [unfolded raised_ok_def])

lemma UpdateListTool_forward_codes:
  "\<exists>d. fst (UpdateListTool_forward ops st a b c opn) = Inr d \<and>
        (dict_get d ''error'' = None \<or>
         dict_get d ''error_code'' = Some (OStr ''VALIDATION_ERROR'') \<or>
         dict_get d ''error_code'' = Some (OStr ''ITEM_NOT_FOUND''))"
proof (cases "update_list_tool_body ops st a b c opn")
  case (Pair r st1)
  show ?thesis
  proof (cases r)
    case (Inl e)
    with Pair update_list_tool_body_raises [of ops st a b c opn e st1]
    show ?thesis
      by (auto simp: UpdateListTool_forward_def update_list_tool_handlers_def raised_ok_def)
  next
    case (Inr d)
    with Pair have "\<exists>x y z w. d = ODict [(''status'', x), (''message'', y), (''list'', z), (''item'', w)]"
      by (auto simp: update_list_tool_body_def Let_def split: sum.splits prod.splits if_splits)
    with Pair Inr show ?thesis by (auto simp: UpdateListTool_forward_def)
  qed
qed

section \<open>The properties of the specification\<close>

text \<open>
  C1. \<^verbatim>\<open>update_list\<close> is atomic, for every argument and every store. When it returns, it
  returns the new list of the customer, which is the list that the store then holds for the
  customer, and nothing else in the store has changed. When it raises, the catalog is
  unchanged and every customer's list, as \<^verbatim>\<open>get_shopping_list\<close> returns it, is the one
  from before the call: all checks precede the first change of a list. (The store itself
  may then hold one more entry, the empty list that \<^verbatim>\<open>get_shopping_list\<close> files for a
  customer on first access; that is the list the customer had before.)
\<close>

theorem update_list_atomic:
  assumes "update_list st a b c d = (r, st')"
  shows "case r of
           Inr l \<Rightarrow>
             fst (get_shopping_list st' c) = Inr l \<and>
             (\<exists>k. c = PInt k \<and> st' = st\<lparr>shopping_lists := (shopping_lists st)(k \<mapsto> l)\<rparr>)
         | Inl e \<Rightarrow>
             catalog st' = catalog st \<and>
             (\<forall>c'. fst (get_shopping_list st' c') = fst (get_shopping_list st c'))"
  using update_list_cases [OF assms]
proof (elim disjE exE conjE)
  fix e assume "r = Inl e" "st' = st" then show ?thesis by simp
next
  fix s q opn l st1 k
  assume h: "c = PInt k" "get_shopping_list st c = (Inr l, st1)"
    and ap: "case apply_operation opn s q (items l) of
               Inl e \<Rightarrow> r = Inl e \<and> st' = st1
             | Inr its \<Rightarrow> r = Inr (l\<lparr>items := its\<rparr>) \<and>
                 st' = st1\<lparr>shopping_lists := (shopping_lists st1)(k \<mapsto> l\<lparr>items := its\<rparr>)\<rparr>"
  show ?thesis
  proof (cases "apply_operation opn s q (items l)")
    case (Inl e)
    have "catalog st1 = catalog st" using get_shopping_list_cases [OF h(2)] by auto
    with Inl ap get_shopping_list_fst_unchanged [OF h(2)] show ?thesis by simp
  next
    case (Inr its)
    from get_shopping_list_cases [OF h(2)] h(1)
    have k: "0 \<le> k" and st1: "st1 = st \<or> st1 = st\<lparr>shopping_lists := (shopping_lists st)(k \<mapsto> l)\<rparr>"
      by auto
    from st1 have "st1\<lparr>shopping_lists := (shopping_lists st1)(k \<mapsto> l\<lparr>items := its\<rparr>)\<rparr>
        = st\<lparr>shopping_lists := (shopping_lists st)(k \<mapsto> l\<lparr>items := its\<rparr>)\<rparr>"
      by auto
    with Inr ap h(1) k show ?thesis by (simp add: get_shopping_list_def)
  qed
qed

theorem update_list_atomic_witness:
  "update_list init_client (PInt 101) (PInt 5) (PInt 0) (PStr ''remove'') =
     (Inl (Exn ItemNotFoundError ''Cannot remove - item with SKU 101 not found in list'' None),
      init_client\<lparr>shopping_lists := [0 \<mapsto> \<lparr>list_id = 0, items = []\<rparr>]\<rparr>) \<and>
   (\<forall>c'. fst (get_shopping_list
               (init_client\<lparr>shopping_lists := [0 \<mapsto> \<lparr>list_id = 0, items = []\<rparr>]\<rparr>) c') =
         fst (get_shopping_list init_client c'))"
proof -
  have h: "update_list init_client (PInt 101) (PInt 5) (PInt 0) (PStr ''remove'') =
     (Inl (Exn ItemNotFoundError ''Cannot remove - item with SKU 101 not found in list'' None),
      init_client\<lparr>shopping_lists := [0 \<mapsto> \<lparr>list_id = 0, items = []\<rparr>]\<rparr>)"
    using update_list_eval [OF _ _ _ _ get_shopping_list_init, of 101 5 "''remove''" 0]
    by (simp add: init_catalog_101 apply_remove_missing str_int_examples)
  from update_list_atomic [OF h] h show ?thesis by simp
qed

text \<open>
  C2. The claimed invariant, that no stored line item has quantity 0, fails on the code:
  \<^verbatim>\<open>update_list(101, 0, 0, "add")\<close> on a new client appends \<^verbatim>\<open>{sku: 101, quantity: 0}\<close>. The
  branches for \<^verbatim>\<open>"remove"\<close> and \<^verbatim>\<open>"set"\<close> delete a line item whose quantity reaches 0; the
  branch for \<^verbatim>\<open>"add"\<close> has no such case. This is the run of the code at that input, with the
  store it reaches.
\<close>

theorem add_zero_quantity_stored:
  "update_list init_client (PInt 101) (PInt 0) (PInt 0) (PStr ''add'') =
     (Inr \<lparr>list_id = 0, items = [\<lparr>sku = 101, quantity = 0\<rparr>]\<rparr>,
      init_client\<lparr>shopping_lists := [0 \<mapsto> \<lparr>list_id = 0, items = [\<lparr>sku = 101, quantity = 0\<rparr>]\<rparr>]\<rparr>) \<and>
   reachable
     (init_client\<lparr>shopping_lists := [0 \<mapsto> \<lparr>list_id = 0, items = [\<lparr>sku = 101, quantity = 0\<rparr>]\<rparr>]\<rparr>)"
proof -
  have c: "catalog init_client 101 \<noteq> None" by (simp add: init_catalog_101)
  have e: "update_list init_client (PInt 101) (PInt 0) (PInt 0) (PStr ''add'') =
     (Inr \<lparr>list_id = 0, items = [\<lparr>sku = 101, quantity = 0\<rparr>]\<rparr>,
      init_client\<lparr>shopping_lists := [0 \<mapsto> \<lparr>list_id = 0, items = [\<lparr>sku = 101, quantity = 0\<rparr>]\<rparr>]\<rparr>)"
    using update_list_eval [OF _ _ _ c get_shopping_list_init, of 0 "''add''" 0]
    by (simp add: apply_add_missing)
  from e reachable_update_list [OF reachable_init e] show ?thesis by (rule conjI)
qed

text \<open>
  C3. \<^verbatim>\<open>update_list\<close> with operation \<^verbatim>\<open>"remove"\<close>, on a reachable store, for a SKU \<open>s\<close> of the
  catalog, a quantity \<open>q \<ge> 0\<close> and the list \<open>l\<close> that the customer \<open>k\<close> has (\<open>st1\<close> is the
  store once \<^verbatim>\<open>get_shopping_list\<close> has filed that list): it raises \<^verbatim>\<open>ItemNotFoundError\<close> when
  the list has no line item for \<open>s\<close>; it raises \<^verbatim>\<open>ValidationError\<close> and leaves the store at
  \<open>st1\<close>, where the customer still has \<open>l\<close>, when \<open>q\<close> exceeds the quantity of the line item;
  otherwise the line item keeps its place with the quantity reduced by \<open>q\<close> when that is
  positive, and the list loses every line item for \<open>s\<close> when it is not.
\<close>

theorem update_list_remove:
  assumes "reachable st" "catalog st s \<noteq> None" "0 \<le> q"
    and "get_shopping_list st (PInt k) = (Inr l, st1)"
  shows "shopping_lists st1 k = Some l \<and>
    (s \<notin> sku ` set (items l) \<longrightarrow>
       (\<exists>m. update_list st (PInt s) (PInt q) (PInt k) (PStr ''remove'') =
              (Inl (Exn ItemNotFoundError m None), st1))) \<and>
    (\<forall>e \<in> set (items l). sku e = s \<longrightarrow>
       (quantity e < q \<longrightarrow>
          (\<exists>m. update_list st (PInt s) (PInt q) (PInt k) (PStr ''remove'') =
                 (Inl (Exn ValidationError m None), st1))) \<and>
       (q < quantity e \<longrightarrow>
          update_list st (PInt s) (PInt q) (PInt k) (PStr ''remove'') =
            (Inr (l\<lparr>items := map (\<lambda>i. if sku i = s then i\<lparr>quantity := quantity e - q\<rparr> else i)
                                (items l)\<rparr>),
             st1\<lparr>shopping_lists := (shopping_lists st1)(k \<mapsto>
                   l\<lparr>items := map (\<lambda>i. if sku i = s then i\<lparr>quantity := quantity e - q\<rparr> else i)
                                 (items l)\<rparr>)\<rparr>)) \<and>
       (q = quantity e \<longrightarrow>
          update_list st (PInt s) (PInt q) (PInt k) (PStr ''remove'') =
            (Inr (l\<lparr>items := filter (\<lambda>i. sku i \<noteq> s) (items l)\<rparr>),
             st1\<lparr>shopping_lists := (shopping_lists st1)(k \<mapsto>
                   l\<lparr>items := filter (\<lambda>i. sku i \<noteq> s) (items l)\<rparr>)\<rparr>)))"
proof -
  have ok: "client_ok st" by (rule reachable_client_ok [OF assms(1)])
  have s: "0 < s" by (rule client_ok_catalog_pos [OF ok assms(2)])
  from get_shopping_list_Inr_ok [OF ok assms(4)]
  have l: "shopping_lists st1 k = Some l" and d: "distinct (map sku (items l))"
    by (auto simp: list_ok_def)
  note ev = update_list_eval [OF s assms(3) _ assms(2) assms(4), of "''remove''", simplified]
  have miss: "s \<notin> sku ` set (items l) \<Longrightarrow> \<exists>m. update_list st (PInt s) (PInt q) (PInt k) (PStr ''remove'') =
              (Inl (Exn ItemNotFoundError m None), st1)"
    by (simp add: ev apply_remove_missing)
  have pres: "(quantity e < q \<longrightarrow>
          (\<exists>m. update_list st (PInt s) (PInt q) (PInt k) (PStr ''remove'') =
                 (Inl (Exn ValidationError m None), st1))) \<and>
       (q < quantity e \<longrightarrow>
          update_list st (PInt s) (PInt q) (PInt k) (PStr ''remove'') =
            (Inr (l\<lparr>items := map (\<lambda>i. if sku i = s then i\<lparr>quantity := quantity e - q\<rparr> else i)
                                (items l)\<rparr>),
             st1\<lparr>shopping_lists := (shopping_lists st1)(k \<mapsto>
                   l\<lparr>items := map (\<lambda>i. if sku i = s then i\<lparr>quantity := quantity e - q\<rparr> else i)
                                 (items l)\<rparr>)\<rparr>)) \<and>
       (q = quantity e \<longrightarrow>
          update_list st (PInt s) (PInt q) (PInt k) (PStr ''remove'') =
            (Inr (l\<lparr>items := filter (\<lambda>i. sku i \<noteq> s) (items l)\<rparr>),
             st1\<lparr>shopping_lists := (shopping_lists st1)(k \<mapsto>
                   l\<lparr>items := filter (\<lambda>i. sku i \<noteq> s) (items l)\<rparr>)\<rparr>))"
    if "e \<in> set (items l)" "sku e = s" for e
    unfolding ev apply_remove_present [OF d that(1), of q, unfolded that(2)] by simp
  from l miss pres show ?thesis by blast
qed

theorem update_list_remove_witness:
  "update_list example_client (PInt 101) (PInt 5) (PInt 0) (PStr ''remove'') =
     (Inl (Exn ValidationError ''Cannot remove 5 - only 2 available'' None), example_client) \<and>
   shopping_lists example_client 0 =
     Some \<lparr>list_id = 0, items = [\<lparr>sku = 101, quantity = 2\<rparr>]\<rparr> \<and>
   fst (update_list example_client (PInt 101) (PInt 1) (PInt 0) (PStr ''remove'')) =
     Inr \<lparr>list_id = 0, items = [\<lparr>sku = 101, quantity = 1\<rparr>]\<rparr> \<and>
   fst (update_list example_client (PInt 101) (PInt 2) (PInt 0) (PStr ''remove'')) =
     Inr \<lparr>list_id = 0, items = []\<rparr> \<and>
   (\<exists>m. update_list example_client (PInt 102) (PInt 1) (PInt 0) (PStr ''remove'') =
     (Inl (Exn ItemNotFoundError m None), example_client))"
proof -
  have c1: "catalog example_client 101 \<noteq> None" by (simp add: example_catalog init_catalog_101)
  have c2: "catalog example_client 102 \<noteq> None" by (simp add: example_catalog init_catalog_102)
  note r = update_list_remove [OF reachable_example_client _ _ get_shopping_list_example]
  have a: "\<exists>m. update_list example_client (PInt 101) (PInt 5) (PInt 0) (PStr ''remove'') =
     (Inl (Exn ValidationError m None), example_client)"
    using r [OF c1, of 5] by simp
  have a': "update_list example_client (PInt 101) (PInt 5) (PInt 0) (PStr ''remove'') =
     (Inl (Exn ValidationError ''Cannot remove 5 - only 2 available'' None), example_client)"
    using a update_list_eval [OF _ _ _ c1 get_shopping_list_example, of 5 "''remove''"]
    by (simp add: apply_operation_def str_int_examples)
  have b: "shopping_lists example_client 0 =
     Some \<lparr>list_id = 0, items = [\<lparr>sku = 101, quantity = 2\<rparr>]\<rparr>"
    using r [OF c1, of 5] by simp
  have c: "fst (update_list example_client (PInt 101) (PInt 1) (PInt 0) (PStr ''remove'')) =
     Inr \<lparr>list_id = 0, items = [\<lparr>sku = 101, quantity = 1\<rparr>]\<rparr>"
    using r [OF c1, of 1] by simp
  have d: "fst (update_list example_client (PInt 101) (PInt 2) (PInt 0) (PStr ''remove'')) =
     Inr \<lparr>list_id = 0, items = []\<rparr>"
    using r [OF c1, of 2] by simp
  have e: "\<exists>m. update_list example_client (PInt 102) (PInt 1) (PInt 0) (PStr ''remove'') =
     (Inl (Exn ItemNotFoundError m None), example_client)"
    using r [OF c2, of 1] by simp
  from a' b c d e show ?thesis by blast
qed

text \<open>
  C4. On a reachable store, for a SKU of the catalog, quantities \<open>q1, q2 \<ge> 0\<close> and a
  customer \<open>k \<ge> 0\<close>: adding \<open>q1\<close> and then \<open>q2\<close> succeeds twice, and the second call returns the
  list and leaves the store that a single addition of \<open>q1 + q2\<close> returns and leaves. The
  witness is the run of the specification: adding 2 and then 3 apples gives 5.
\<close>

theorem update_list_add_cumulative:
  assumes "reachable st" "catalog st s \<noteq> None" "0 \<le> q1" "0 \<le> q2" "0 \<le> k"
  shows "\<exists>l1 st1 l2 st2.
           update_list st (PInt s) (PInt q1) (PInt k) (PStr ''add'') = (Inr l1, st1) \<and>
           update_list st1 (PInt s) (PInt q2) (PInt k) (PStr ''add'') = (Inr l2, st2) \<and>
           update_list st (PInt s) (PInt (q1 + q2)) (PInt k) (PStr ''add'') = (Inr l2, st2)"
proof -
  have ok: "client_ok st" by (rule reachable_client_ok [OF assms(1)])
  have s: "0 < s" by (rule client_ok_catalog_pos [OF ok assms(2)])
  from get_shopping_list_total [OF assms(5)]
  obtain l st0 where g: "get_shopping_list st (PInt k) = (Inr l, st0)" by blast
  from get_shopping_list_Inr_ok [OF ok g]
  have d: "distinct (map sku (items l))" and nn: "\<forall>i \<in> set (items l). 0 \<le> quantity i"
    by (auto simp: list_ok_def)
  from apply_add_add [OF d nn assms(3,4), of s]
  obtain ys zs where a: "apply_operation ''add'' s q1 (items l) = Inr ys"
    "apply_operation ''add'' s q2 ys = Inr zs"
    "apply_operation ''add'' s (q1 + q2) (items l) = Inr zs" by blast
  let ?st1 = "st0\<lparr>shopping_lists := (shopping_lists st0)(k \<mapsto> l\<lparr>items := ys\<rparr>)\<rparr>"
  let ?st2 = "st0\<lparr>shopping_lists := (shopping_lists st0)(k \<mapsto> l\<lparr>items := zs\<rparr>)\<rparr>"
  have c0: "catalog st0 = catalog st" using get_shopping_list_cases [OF g] by auto
  have 1: "update_list st (PInt s) (PInt q1) (PInt k) (PStr ''add'') = (Inr (l\<lparr>items := ys\<rparr>), ?st1)"
    using update_list_eval [OF s assms(3) _ assms(2) g, of "''add''"] a(1) by simp
  have g1: "get_shopping_list ?st1 (PInt k) = (Inr (l\<lparr>items := ys\<rparr>), ?st1)"
    by (rule get_shopping_list_present) (simp_all add: assms(5))
  have c1: "catalog ?st1 s \<noteq> None" using assms(2) c0 by simp
  have 2: "update_list ?st1 (PInt s) (PInt q2) (PInt k) (PStr ''add'') = (Inr (l\<lparr>items := zs\<rparr>), ?st2)"
    using update_list_eval [OF s assms(4) _ c1 g1, of "''add''"] a(2) by simp
  have q: "0 \<le> q1 + q2" using assms(3,4) by simp
  have 3: "update_list st (PInt s) (PInt (q1 + q2)) (PInt k) (PStr ''add'') = (Inr (l\<lparr>items := zs\<rparr>), ?st2)"
    using update_list_eval [OF s q _ assms(2) g, of "''add''"] a(3) by simp
  from 1 2 3 show ?thesis by blast
qed

theorem update_list_add_cumulative_witness:
  "fst (update_list (snd (update_list init_client (PInt 101) (PInt 2) (PInt 0) (PStr ''add'')))
          (PInt 101) (PInt 3) (PInt 0) (PStr ''add'')) =
     Inr \<lparr>list_id = 0, items = [\<lparr>sku = 101, quantity = 5\<rparr>]\<rparr> \<and>
   update_list (snd (update_list init_client (PInt 101) (PInt 2) (PInt 0) (PStr ''add'')))
          (PInt 101) (PInt 3) (PInt 0) (PStr ''add'') =
     update_list init_client (PInt 101) (PInt 5) (PInt 0) (PStr ''add'')"
proof -
  have c: "catalog init_client 101 \<noteq> None" by (simp add: init_catalog_101)
  have five: "update_list init_client (PInt 101) (PInt 5) (PInt 0) (PStr ''add'') =
     (Inr \<lparr>list_id = 0, items = [\<lparr>sku = 101, quantity = 5\<rparr>]\<rparr>,
      init_client\<lparr>shopping_lists := [0 \<mapsto> \<lparr>list_id = 0, items = [\<lparr>sku = 101, quantity = 5\<rparr>]\<rparr>]\<rparr>)"
    using update_list_eval [OF _ _ _ c get_shopping_list_init, of 5 "''add''" 0]
    by (simp add: apply_add_missing)
  have "(0::int) \<le> 2" "(0::int) \<le> 3" "(0::int) \<le> 0" by simp_all
  from update_list_add_cumulative [OF reachable_init c this]
  obtain l1 st1 l2 st2 where
    h: "update_list init_client (PInt 101) (PInt 2) (PInt 0) (PStr ''add'') = (Inr l1, st1)"
       "update_list st1 (PInt 101) (PInt 3) (PInt 0) (PStr ''add'') = (Inr l2, st2)"
       "update_list init_client (PInt 101) (PInt (2 + 3)) (PInt 0) (PStr ''add'') = (Inr l2, st2)"
    by blast
  from h(3) have h3: "update_list init_client (PInt 101) (PInt 5) (PInt 0) (PStr ''add'') = (Inr l2, st2)"
    by simp
  show ?thesis unfolding h(1) snd_conv h(2) h3 using h3 five by simp
qed

text \<open>
  C5. \<^verbatim>\<open>update_list\<close> with operation \<^verbatim>\<open>"set"\<close>, on a reachable store, for a SKU \<open>s\<close> of the
  catalog and the list \<open>l\<close> of the customer \<open>k\<close>: with quantity 0 the call returns \<open>l\<close> without
  its line item for \<open>s\<close>; the same call on the store it leaves returns the same list and
  leaves the same store; when \<open>l\<close> has no line item for \<open>s\<close> the call returns \<open>l\<close> and changes
  nothing. With a quantity \<open>q > 0\<close> the line item for \<open>s\<close> gets exactly the quantity \<open>q\<close>,
  in its place when there is one and at the end of the list when there is none.
\<close>

theorem update_list_set:
  assumes "reachable st" "catalog st s \<noteq> None"
    and "get_shopping_list st (PInt k) = (Inr l, st1)"
  shows "update_list st (PInt s) (PInt 0) (PInt k) (PStr ''set'') =
           (Inr (l\<lparr>items := filter (\<lambda>i. sku i \<noteq> s) (items l)\<rparr>),
            st1\<lparr>shopping_lists := (shopping_lists st1)(k \<mapsto>
                  l\<lparr>items := filter (\<lambda>i. sku i \<noteq> s) (items l)\<rparr>)\<rparr>) \<and>
         update_list
           (st1\<lparr>shopping_lists := (shopping_lists st1)(k \<mapsto>
                  l\<lparr>items := filter (\<lambda>i. sku i \<noteq> s) (items l)\<rparr>)\<rparr>)
           (PInt s) (PInt 0) (PInt k) (PStr ''set'') =
           (Inr (l\<lparr>items := filter (\<lambda>i. sku i \<noteq> s) (items l)\<rparr>),
            st1\<lparr>shopping_lists := (shopping_lists st1)(k \<mapsto>
                  l\<lparr>items := filter (\<lambda>i. sku i \<noteq> s) (items l)\<rparr>)\<rparr>) \<and>
         (s \<notin> sku ` set (items l) \<longrightarrow>
            update_list st (PInt s) (PInt 0) (PInt k) (PStr ''set'') = (Inr l, st1)) \<and>
         (\<forall>q. 0 < q \<longrightarrow>
            update_list st (PInt s) (PInt q) (PInt k) (PStr ''set'') =
              (Inr (l\<lparr>items :=
                      if s \<in> sku ` set (items l)
                      then map (\<lambda>i. if sku i = s then i\<lparr>quantity := q\<rparr> else i) (items l)
                      else items l @ [\<lparr>sku = s, quantity = q\<rparr>]\<rparr>),
               st1\<lparr>shopping_lists := (shopping_lists st1)(k \<mapsto>
                 l\<lparr>items :=
                      if s \<in> sku ` set (items l)
                      then map (\<lambda>i. if sku i = s then i\<lparr>quantity := q\<rparr> else i) (items l)
                      else items l @ [\<lparr>sku = s, quantity = q\<rparr>]\<rparr>)\<rparr>))"
proof -
  have ok: "client_ok st" by (rule reachable_client_ok [OF assms(1)])
  have s: "0 < s" by (rule client_ok_catalog_pos [OF ok assms(2)])
  from get_shopping_list_Inr_ok [OF ok assms(3)]
  have l: "shopping_lists st1 k = Some l" and d: "distinct (map sku (items l))"
    by (auto simp: list_ok_def)
  from get_shopping_list_cases [OF assms(3)]
  have k: "0 \<le> k" and c1: "catalog st1 = catalog st" by auto
  let ?l' = "l\<lparr>items := filter (\<lambda>i. sku i \<noteq> s) (items l)\<rparr>"
  let ?st' = "st1\<lparr>shopping_lists := (shopping_lists st1)(k \<mapsto> ?l')\<rparr>"
  have 1: "update_list st (PInt s) (PInt 0) (PInt k) (PStr ''set'') = (Inr ?l', ?st')"
    using update_list_eval [OF s _ _ assms(2,3), of 0 "''set''"] by (simp add: apply_set_zero [OF d])
  have g': "get_shopping_list ?st' (PInt k) = (Inr ?l', ?st')"
    by (rule get_shopping_list_present) (simp_all add: k)
  have d': "distinct (map sku (items ?l'))" using d by (simp add: distinct_map_filter)
  have c': "catalog ?st' s \<noteq> None" using assms(2) c1 by simp
  have 2: "update_list ?st' (PInt s) (PInt 0) (PInt k) (PStr ''set'') = (Inr ?l', ?st')"
    using update_list_eval [OF s _ _ c' g', of 0 "''set''"] apply_set_zero [OF d', of s]
    by simp
  have 3: "update_list st (PInt s) (PInt 0) (PInt k) (PStr ''set'') = (Inr l, st1)"
    if "s \<notin> sku ` set (items l)"
  proof -
    from that have "filter (\<lambda>i. sku i \<noteq> s) (items l) = items l" by (intro filter_True) auto
    with 1 l show ?thesis by (simp add: client_upd_same)
  qed
  have 4: "update_list st (PInt s) (PInt q) (PInt k) (PStr ''set'') =
              (Inr (l\<lparr>items :=
                      if s \<in> sku ` set (items l)
                      then map (\<lambda>i. if sku i = s then i\<lparr>quantity := q\<rparr> else i) (items l)
                      else items l @ [\<lparr>sku = s, quantity = q\<rparr>]\<rparr>),
               st1\<lparr>shopping_lists := (shopping_lists st1)(k \<mapsto>
                 l\<lparr>items :=
                      if s \<in> sku ` set (items l)
                      then map (\<lambda>i. if sku i = s then i\<lparr>quantity := q\<rparr> else i) (items l)
                      else items l @ [\<lparr>sku = s, quantity = q\<rparr>]\<rparr>)\<rparr>)" if "0 < q" for q
    using update_list_eval [OF s _ _ assms(2,3), of q "''set''"] that
    by (simp add: apply_set_positive [OF d that])
  from 1 2 3 4 show ?thesis by blast
qed

theorem update_list_set_witness:
  "update_list init_client (PInt 102) (PInt 5) (PInt 7) (PStr ''set'') =
     (Inr \<lparr>list_id = 7, items = [\<lparr>sku = 102, quantity = 5\<rparr>]\<rparr>,
      init_client\<lparr>shopping_lists := [7 \<mapsto> \<lparr>list_id = 7, items = [\<lparr>sku = 102, quantity = 5\<rparr>]\<rparr>]\<rparr>) \<and>
   update_list init_client (PInt 102) (PInt 0) (PInt 7) (PStr ''set'') =
     (Inr \<lparr>list_id = 7, items = []\<rparr>,
      init_client\<lparr>shopping_lists := [7 \<mapsto> \<lparr>list_id = 7, items = []\<rparr>]\<rparr>) \<and>
   fst (update_list example_client (PInt 101) (PInt 0) (PInt 0) (PStr ''set'')) =
     Inr \<lparr>list_id = 0, items = []\<rparr> \<and>
   fst (update_list example_client (PInt 101) (PInt 7) (PInt 0) (PStr ''set'')) =
     Inr \<lparr>list_id = 0, items = [\<lparr>sku = 101, quantity = 7\<rparr>]\<rparr>"
proof -
  have c2: "catalog init_client 102 \<noteq> None" by (simp add: init_catalog_102)
  have c1: "catalog example_client 101 \<noteq> None" by (simp add: example_catalog init_catalog_101)
  have g: "get_shopping_list init_client (PInt 7) =
     (Inr \<lparr>list_id = 7, items = []\<rparr>,
      init_client\<lparr>shopping_lists := [7 \<mapsto> \<lparr>list_id = 7, items = []\<rparr>]\<rparr>)"
    by (rule get_shopping_list_init) simp
  note i = update_list_set [OF reachable_init c2 g]
  note e = update_list_set [OF reachable_example_client c1 get_shopping_list_example]
  have a: "update_list init_client (PInt 102) (PInt 5) (PInt 7) (PStr ''set'') =
     (Inr \<lparr>list_id = 7, items = [\<lparr>sku = 102, quantity = 5\<rparr>]\<rparr>,
      init_client\<lparr>shopping_lists := [7 \<mapsto> \<lparr>list_id = 7, items = [\<lparr>sku = 102, quantity = 5\<rparr>]\<rparr>]\<rparr>)"
    using i [THEN conjunct2, THEN conjunct2, THEN conjunct2, rule_format, of 5] by simp
  have b: "update_list init_client (PInt 102) (PInt 0) (PInt 7) (PStr ''set'') =
     (Inr \<lparr>list_id = 7, items = []\<rparr>,
      init_client\<lparr>shopping_lists := [7 \<mapsto> \<lparr>list_id = 7, items = []\<rparr>]\<rparr>)"
    using i [THEN conjunct1] by simp
  have c: "fst (update_list example_client (PInt 101) (PInt 0) (PInt 0) (PStr ''set'')) =
     Inr \<lparr>list_id = 0, items = []\<rparr>"
    using e [THEN conjunct1] by simp
  have d: "fst (update_list example_client (PInt 101) (PInt 7) (PInt 0) (PStr ''set'')) =
     Inr \<lparr>list_id = 0, items = [\<lparr>sku = 101, quantity = 7\<rparr>]\<rparr>"
    using e [THEN conjunct2, THEN conjunct2, THEN conjunct2, rule_format, of 7] by simp
  from a b c d show ?thesis by blast
qed

text \<open>
  C6. On a reachable store, \<^verbatim>\<open>get_shopping_list\<close> of a customer id \<open>k \<ge> 0\<close> returns a list
  whose \<^verbatim>\<open>list_id\<close> is \<open>k\<close>: the empty list \<^verbatim>\<open>{list_id: k, items: []}\<close> on first access, the
  list the store holds otherwise (and then the store is unchanged); a second call right
  after returns the same list. For an argument that is not an integer \<open>k \<ge> 0\<close> the call
  raises \<^verbatim>\<open>ValidationError\<close> and changes nothing.
\<close>

theorem get_shopping_list_spec:
  assumes "reachable st"
  shows "(\<forall>k\<ge>0. \<exists>l st1. get_shopping_list st (PInt k) = (Inr l, st1) \<and> list_id l = k \<and>
            (shopping_lists st k = None \<longrightarrow> l = \<lparr>list_id = k, items = []\<rparr>) \<and>
            (shopping_lists st k \<noteq> None \<longrightarrow> shopping_lists st k = Some l \<and> st1 = st) \<and>
            get_shopping_list st1 (PInt k) = (Inr l, st1)) \<and>
         (\<forall>c. (\<forall>k. c = PInt k \<longrightarrow> k < 0) \<longrightarrow>
            get_shopping_list st c = (Inl (Exn ValidationError ''Invalid customer ID'' None), st))"
proof -
  have ok: "client_ok st" by (rule reachable_client_ok [OF assms])
  have a: "\<exists>l st1. get_shopping_list st (PInt k) = (Inr l, st1) \<and> list_id l = k \<and>
            (shopping_lists st k = None \<longrightarrow> l = \<lparr>list_id = k, items = []\<rparr>) \<and>
            (shopping_lists st k \<noteq> None \<longrightarrow> shopping_lists st k = Some l \<and> st1 = st) \<and>
            get_shopping_list st1 (PInt k) = (Inr l, st1)" if k: "0 \<le> k" for k
  proof -
    from get_shopping_list_total [OF k]
    obtain l st1 where g: "get_shopping_list st (PInt k) = (Inr l, st1)" by blast
    from get_shopping_list_Inr_ok [OF ok g]
    have l: "shopping_lists st1 k = Some l" "list_id l = k" by (auto simp: list_ok_def)
    have again: "get_shopping_list st1 (PInt k) = (Inr l, st1)"
      by (rule get_shopping_list_present [OF l(1) k])
    from get_shopping_list_cases [OF g] g l again show ?thesis by auto
  qed
  have b: "get_shopping_list st c = (Inl (Exn ValidationError ''Invalid customer ID'' None), st)"
    if "\<forall>k. c = PInt k \<longrightarrow> k < 0" for c
    using that by (cases c) (simp_all add: get_shopping_list_def)
  from a b show ?thesis by blast
qed

theorem get_shopping_list_spec_witness:
  "get_shopping_list init_client (PInt 7) =
     (Inr \<lparr>list_id = 7, items = []\<rparr>,
      init_client\<lparr>shopping_lists := [7 \<mapsto> \<lparr>list_id = 7, items = []\<rparr>]\<rparr>) \<and>
   get_shopping_list (init_client\<lparr>shopping_lists := [7 \<mapsto> \<lparr>list_id = 7, items = []\<rparr>]\<rparr>) (PInt 7) =
     (Inr \<lparr>list_id = 7, items = []\<rparr>,
      init_client\<lparr>shopping_lists := [7 \<mapsto> \<lparr>list_id = 7, items = []\<rparr>]\<rparr>) \<and>
   get_shopping_list init_client (PInt (- 1)) =
     (Inl (Exn ValidationError ''Invalid customer ID'' None), init_client) \<and>
   get_shopping_list init_client (PStr ''7'') =
     (Inl (Exn ValidationError ''Invalid customer ID'' None), init_client) \<and>
   get_shopping_list init_client PNone =
     (Inl (Exn ValidationError ''Invalid customer ID'' None), init_client)"
proof -
  note sp = get_shopping_list_spec [OF reachable_init]
  from sp [THEN conjunct1, rule_format, of 7]
  obtain l st1 where h: "get_shopping_list init_client (PInt 7) = (Inr l, st1)"
    "shopping_lists init_client 7 = None \<longrightarrow> l = \<lparr>list_id = 7, items = []\<rparr>"
    "get_shopping_list st1 (PInt 7) = (Inr l, st1)" by auto
  have g: "get_shopping_list init_client (PInt 7) =
     (Inr \<lparr>list_id = 7, items = []\<rparr>,
      init_client\<lparr>shopping_lists := [7 \<mapsto> \<lparr>list_id = 7, items = []\<rparr>]\<rparr>)"
    by (rule get_shopping_list_init) simp
  from h(1) have "(Inr l, st1) = get_shopping_list init_client (PInt 7)" by simp
  also note g
  finally have l: "l = \<lparr>list_id = 7, items = []\<rparr>"
    and st1: "st1 = init_client\<lparr>shopping_lists := [7 \<mapsto> \<lparr>list_id = 7, items = []\<rparr>]\<rparr>"
    by simp_all
  have a: "get_shopping_list init_client (PInt (- 1)) =
     (Inl (Exn ValidationError ''Invalid customer ID'' None), init_client)"
    using sp [THEN conjunct2, rule_format, of "PInt (- 1)"] by simp
  have b: "get_shopping_list init_client (PStr ''7'') =
     (Inl (Exn ValidationError ''Invalid customer ID'' None), init_client)"
    using sp [THEN conjunct2, rule_format, of "PStr ''7''"] by simp
  have c: "get_shopping_list init_client PNone =
     (Inl (Exn ValidationError ''Invalid customer ID'' None), init_client)"
    using sp [THEN conjunct2, rule_format, of PNone] by simp
  from g h(3) a b c show ?thesis unfolding st1 l by blast
qed

text \<open>
  C7. Lists are independent: a call of \<^verbatim>\<open>update_list\<close> or of \<^verbatim>\<open>get_shopping_list\<close> for the
  customer \<open>c1\<close>, whatever its other arguments and whether it returns or raises, leaves the
  entry of any other customer \<open>k2\<close> as it was, and with it the list that
  \<^verbatim>\<open>get_shopping_list\<close> returns for \<open>k2\<close>.
\<close>

theorem customer_lists_independent:
  assumes "c1 \<noteq> PInt k2"
  shows "shopping_lists (snd (update_list st a b c1 d)) k2 = shopping_lists st k2 \<and>
         shopping_lists (snd (get_shopping_list st c1)) k2 = shopping_lists st k2 \<and>
         fst (get_shopping_list (snd (update_list st a b c1 d)) (PInt k2)) =
           fst (get_shopping_list st (PInt k2)) \<and>
         fst (get_shopping_list (snd (get_shopping_list st c1)) (PInt k2)) =
           fst (get_shopping_list st (PInt k2))"
proof -
  have u: "shopping_lists (snd (update_list st a b c1 d)) k2 = shopping_lists st k2"
    using update_list_other [OF _ assms, of st a b d] by (cases "update_list st a b c1 d") simp
  have g: "shopping_lists (snd (get_shopping_list st c1)) k2 = shopping_lists st k2"
    using get_shopping_list_other [OF _ assms, of st] by (cases "get_shopping_list st c1") simp
  from u g show ?thesis by (intro conjI get_shopping_list_fst_cong)
qed

theorem customer_lists_independent_witness:
  "shopping_lists (snd (update_list example_client (PInt 102) (PInt 5) (PInt 7) (PStr ''set''))) 0 =
     Some \<lparr>list_id = 0, items = [\<lparr>sku = 101, quantity = 2\<rparr>]\<rparr> \<and>
   shopping_lists (snd (get_shopping_list example_client (PInt 7))) 0 =
     Some \<lparr>list_id = 0, items = [\<lparr>sku = 101, quantity = 2\<rparr>]\<rparr> \<and>
   fst (get_shopping_list
          (snd (update_list example_client (PInt 102) (PInt 5) (PInt 7) (PStr ''set''))) (PInt 0)) =
     Inr \<lparr>list_id = 0, items = [\<lparr>sku = 101, quantity = 2\<rparr>]\<rparr>"
proof -
  have ne: "PInt 7 \<noteq> PInt 0" by simp
  have l: "shopping_lists example_client 0 =
     Some \<lparr>list_id = 0, items = [\<lparr>sku = 101, quantity = 2\<rparr>]\<rparr>"
    by (simp add: example_client_eq)
  from customer_lists_independent [OF ne, of example_client "PInt 102" "PInt 5" "PStr ''set''"]
    l get_shopping_list_example
  show ?thesis by simp
qed

text \<open>
  C8. \<^verbatim>\<open>get_item_info\<close> for a positive integer SKU \<open>s\<close>, on any store: it raises
  \<^verbatim>\<open>ItemNotFoundError\<close> when the catalog has no item for \<open>s\<close>; otherwise it returns the item of
  the catalog with the price \<open>p\<close> that \<^verbatim>\<open>float\<close> reads from the text of \<^verbatim>\<open>format_currency\<close>, a
  text with exactly two digits after the point: \<open>p\<close> is a whole number of hundredths, the
  nearest to the price of the catalog. The witness is the run of the specification: SKU
  999 is not found, and SKU 101 comes with the price 3.50.
\<close>

theorem get_item_info_spec:
  assumes "0 < s"
  shows "(catalog st s = None \<longrightarrow>
            get_item_info st (PInt s) =
              (Inl (Exn ItemNotFoundError (''Item with SKU '' @ str_int s @ '' not found'') None),
               st)) \<and>
         (\<forall>item. catalog st s = Some item \<longrightarrow>
            (\<exists>p. get_item_info st (PInt s) =
                   (Inr (item\<lparr>unit_price := p\<rparr>),
                    st\<lparr>catalog := (catalog st)(s \<mapsto> item\<lparr>unit_price := p\<rparr>)\<rparr>) \<and>
                 py_float (format_currency (unit_price item)) = Some p \<and>
                 (\<exists>ds d1 d2. format_currency (unit_price item) = ds @ [CHR ''.'', d1, d2] \<and>
                    is_digit d1 \<and> is_digit d2) \<and>
                 (\<exists>n::int. p = of_int n / 100) \<and> \<bar>p - unit_price item\<bar> \<le> 1 / 200))"
proof (intro conjI impI allI)
  assume "catalog st s = None"
  with assms show "get_item_info st (PInt s) =
      (Inl (Exn ItemNotFoundError (''Item with SKU '' @ str_int s @ '' not found'') None), st)"
    by (simp add: get_item_info_def validate_sku_def)
next
  fix item assume c: "catalog st s = Some item"
  obtain p where p: "py_float (format_currency (unit_price item)) = Some p"
    by (simp add: py_float_format_currency)
  have g: "get_item_info st (PInt s) =
      (Inr (item\<lparr>unit_price := p\<rparr>), st\<lparr>catalog := (catalog st)(s \<mapsto> item\<lparr>unit_price := p\<rparr>)\<rparr>)"
    using assms c by (simp add: get_item_info_def validate_sku_def p)
  note v = py_float_format_currency_value [OF p]
  show "\<exists>p. get_item_info st (PInt s) =
                   (Inr (item\<lparr>unit_price := p\<rparr>),
                    st\<lparr>catalog := (catalog st)(s \<mapsto> item\<lparr>unit_price := p\<rparr>)\<rparr>) \<and>
                 py_float (format_currency (unit_price item)) = Some p \<and>
                 (\<exists>ds d1 d2. format_currency (unit_price item) = ds @ [CHR ''.'', d1, d2] \<and>
                    is_digit d1 \<and> is_digit d2) \<and>
                 (\<exists>n::int. p = of_int n / 100) \<and> \<bar>p - unit_price item\<bar> \<le> 1 / 200"
  proof (intro exI [of _ p] conjI)
    show "get_item_info st (PInt s) =
      (Inr (item\<lparr>unit_price := p\<rparr>), st\<lparr>catalog := (catalog st)(s \<mapsto> item\<lparr>unit_price := p\<rparr>)\<rparr>)"
      by (rule g)
    show "py_float (format_currency (unit_price item)) = Some p" by (rule p)
    show "\<exists>ds d1 d2. format_currency (unit_price item) = ds @ [CHR ''.'', d1, d2] \<and>
                    is_digit d1 \<and> is_digit d2" by (rule format_currency_shape)
    show "\<exists>n::int. p = of_int n / 100" by (rule v [THEN conjunct1])
    show "\<bar>p - unit_price item\<bar> \<le> 1 / 200" by (rule v [THEN conjunct2])
  qed
qed

theorem get_item_info_spec_witness:
  "get_item_info init_client (PInt 999) =
     (Inl (Exn ItemNotFoundError ''Item with SKU 999 not found'' None), init_client) \<and>
   fst (get_item_info init_client (PInt 101)) =
     Inr \<lparr>item_sku = 101, item_name = ''Apple'', unit_price = 7 / 2\<rparr> \<and>
   format_currency (7 / 2) = ''3.50''"
proof -
  have pos: "(0::int) < 999" "(0::int) < 101" by simp_all
  have a: "get_item_info init_client (PInt 999) =
     (Inl (Exn ItemNotFoundError ''Item with SKU 999 not found'' None), init_client)"
    using get_item_info_spec [OF pos(1), of init_client, THEN conjunct1]
    by (simp add: init_catalog_999 str_int_examples)
  from get_item_info_spec [OF pos(2), of init_client, THEN conjunct2, rule_format, OF init_catalog_101]
  obtain p where p: "get_item_info init_client (PInt 101) =
      (Inr (\<lparr>item_sku = 101, item_name = ''Apple'', unit_price = 350 / 100\<rparr>\<lparr>unit_price := p\<rparr>),
       init_client\<lparr>catalog := (catalog init_client)(101 \<mapsto>
          \<lparr>item_sku = 101, item_name = ''Apple'', unit_price = 350 / 100\<rparr>\<lparr>unit_price := p\<rparr>)\<rparr>) \<and>
      py_float (format_currency
         (unit_price \<lparr>item_sku = 101, item_name = ''Apple'', unit_price = 350 / 100\<rparr>)) = Some p \<and>
      (\<exists>ds d1 d2. format_currency
         (unit_price \<lparr>item_sku = 101, item_name = ''Apple'', unit_price = 350 / 100\<rparr>) =
           ds @ [CHR ''.'', d1, d2] \<and> is_digit d1 \<and> is_digit d2) \<and>
      (\<exists>n::int. p = of_int n / 100) \<and>
      \<bar>p - unit_price \<lparr>item_sku = 101, item_name = ''Apple'', unit_price = 350 / 100\<rparr>\<bar> \<le> 1 / 200" ..
  from p have "py_float (format_currency
         (unit_price \<lparr>item_sku = 101, item_name = ''Apple'', unit_price = 350 / 100\<rparr>)) = Some p"
    by (rule conjunct2 [THEN conjunct1])
  then have "p = 7 / 2" unfolding unit_price_apple format_apple float_apple by simp
  with p have b: "fst (get_item_info init_client (PInt 101)) =
     Inr \<lparr>item_sku = 101, item_name = ''Apple'', unit_price = 7 / 2\<rparr>" by simp
  have c: "format_currency (7 / 2) = ''3.50''" by (rule format_apple)
  from a b c show ?thesis by (intro conjI)
qed

text \<open>
  C9. The claim fails for \<^verbatim>\<open>GetShoppingListTool\<close>: for the customer id \<open>-1\<close> its result
  carries the \<^verbatim>\<open>error_code\<close> attribute of the exception, which no \<^verbatim>\<open>raise\<close> of the repository
  sets, hence \<^verbatim>\<open>None\<close>; for the customer id \<^verbatim>\<open>None\<close> the \<^verbatim>\<open>TypeError\<close> of \<^verbatim>\<open>int\<close> gives a result
  with no error code at all. \<^verbatim>\<open>UpdateListTool\<close> sets the three codes itself.
\<close>

theorem get_tool_error_code_missing:
  "GetShoppingListTool_forward int_of_str st (PInt (- 1)) =
     (Inr (ODict [(''error'', OStr ''Customer ID must be a positive integer''),
                  (''error_code'', ONone)]), st) \<and>
   GetShoppingListTool_forward int_of_str st PNone =
     (Inr (ODict [(''error'', OStr ''An unexpected error occurred'')]), st)"
  by (simp add: GetShoppingListTool_forward_def get_shopping_list_tool_body_def
        validate_customer_id_def py_int_def get_shopping_list_tool_handlers_def)

text \<open>
  C10, as the code has it. On a reachable store where the list of customer \<open>k\<close> has a line
  item \<open>i\<close>, \<^verbatim>\<open>UpdateListTool\<close> with operation \<^verbatim>\<open>"remove"\<close> and a quantity \<open>q \<le> 0\<close> for the SKU of
  \<open>i\<close> returns a \<^verbatim>\<open>VALIDATION_ERROR\<close> result and leaves the store as it was. Its message is
  \<^verbatim>\<open>"Quantity must be positive for removal"\<close> for \<open>q = 0\<close>; for \<open>q < 0\<close> the check of the quantity
  comes first and the message is \<^verbatim>\<open>"Quantity cannot be negative"\<close>. The \<^verbatim>\<open>update_list\<close> of the
  store accepts the removal of quantity 0: it returns the list unchanged when the quantity
  of \<open>i\<close> is positive, and the list without \<open>i\<close> when that quantity is 0.
\<close>

theorem update_tool_remove_nonpositive:
  assumes "reachable st" "shopping_lists st k = Some l" "i \<in> set (items l)" "q \<le> 0"
  shows "UpdateListTool_forward ops st (PInt (sku i)) (PInt q) (PInt k) (PStr ''remove'') =
           (Inr (ODict [(''error'',
                           OStr (if q = 0 then ''Quantity must be positive for removal''
                                 else ''Quantity cannot be negative'')),
                        (''error_code'', OStr ''VALIDATION_ERROR'')]), st) \<and>
         update_list st (PInt (sku i)) (PInt 0) (PInt k) (PStr ''remove'') =
           (if 0 < quantity i then (Inr l, st)
            else (Inr (l\<lparr>items := filter (\<lambda>j. sku j \<noteq> sku i) (items l)\<rparr>),
                  st\<lparr>shopping_lists := (shopping_lists st)(k \<mapsto>
                        l\<lparr>items := filter (\<lambda>j. sku j \<noteq> sku i) (items l)\<rparr>)\<rparr>))"
proof -
  have ok: "client_ok st" by (rule reachable_client_ok [OF assms(1)])
  then have lo: "list_ok st k l" using assms(2) by (simp add: client_ok_def)
  then have k: "0 \<le> k" and d: "distinct (map sku (items l))"
    and qi: "0 \<le> quantity i" and cat: "catalog st (sku i) \<noteq> None"
    using assms(3) by (auto simp: list_ok_def)
  have s: "0 < sku i" by (rule client_ok_catalog_pos [OF ok cat])
  have g: "get_shopping_list st (PInt k) = (Inr l, st)"
    by (rule get_shopping_list_present [OF assms(2) k])
  have tool: "UpdateListTool_forward ops st (PInt (sku i)) (PInt q) (PInt k) (PStr ''remove'') =
           (Inr (ODict [(''error'',
                           OStr (if q = 0 then ''Quantity must be positive for removal''
                                 else ''Quantity cannot be negative'')),
                        (''error_code'', OStr ''VALIDATION_ERROR'')]), st)"
  proof (cases "q = 0")
    case True
    with update_tool_remove_zero [OF assms(2) k assms(3)] show ?thesis by simp
  next
    case False
    with assms(4) have "q < 0" by simp
    with update_tool_negative [OF this] show ?thesis by simp
  qed
  have ev: "update_list st (PInt (sku i)) (PInt 0) (PInt k) (PStr ''remove'') =
     (case apply_operation ''remove'' (sku i) 0 (items l) of
        Inl e \<Rightarrow> (Inl e, st)
      | Inr its \<Rightarrow> (Inr (l\<lparr>items := its\<rparr>),
                    st\<lparr>shopping_lists := (shopping_lists st)(k \<mapsto> l\<lparr>items := its\<rparr>)\<rparr>))"
    by (rule update_list_eval [OF s _ _ cat g]) simp_all
  have same: "map (\<lambda>j. if sku j = sku i then j\<lparr>quantity := quantity i - 0\<rparr> else j) (items l) = items l"
  proof (intro map_idI)
    fix j assume j: "j \<in> set (items l)"
    show "(if sku j = sku i then j\<lparr>quantity := quantity i - 0\<rparr> else j) = j"
    proof (cases "sku j = sku i")
      case True
      with d j assms(3) have "j = i" by (auto simp: distinct_map inj_on_def)
      then show ?thesis by simp
    next
      case False
      then show ?thesis by simp
    qed
  qed
  have store: "update_list st (PInt (sku i)) (PInt 0) (PInt k) (PStr ''remove'') =
           (if 0 < quantity i then (Inr l, st)
            else (Inr (l\<lparr>items := filter (\<lambda>j. sku j \<noteq> sku i) (items l)\<rparr>),
                  st\<lparr>shopping_lists := (shopping_lists st)(k \<mapsto>
                        l\<lparr>items := filter (\<lambda>j. sku j \<noteq> sku i) (items l)\<rparr>)\<rparr>))"
  proof (cases "0 < quantity i")
    case True
    then show ?thesis
      unfolding ev apply_remove_present [OF d assms(3), of 0]
      using same assms(2) by (simp add: client_upd_same)
  next
    case False
    with qi have "quantity i = 0" by simp
    then show ?thesis
      unfolding ev apply_remove_present [OF d assms(3), of 0] by simp
  qed
  from tool store show ?thesis by (rule conjI)
qed

theorem update_tool_remove_nonpositive_witness:
  "UpdateListTool_forward valid_operations_repr example_client (PInt 101) (PInt 0) (PInt 0)
       (PStr ''remove'') =
     (Inr (ODict [(''error'', OStr ''Quantity must be positive for removal''),
                  (''error_code'', OStr ''VALIDATION_ERROR'')]), example_client) \<and>
   update_list example_client (PInt 101) (PInt 0) (PInt 0) (PStr ''remove'') =
     (Inr \<lparr>list_id = 0, items = [\<lparr>sku = 101, quantity = 2\<rparr>]\<rparr>, example_client)"
proof -
  have l: "shopping_lists example_client 0 =
      Some \<lparr>list_id = 0, items = [\<lparr>sku = 101, quantity = 2\<rparr>]\<rparr>"
    by (simp add: example_client_eq)
  have i: "\<lparr>sku = 101, quantity = 2\<rparr> \<in> set (items \<lparr>list_id = 0, items = [\<lparr>sku = 101, quantity = 2\<rparr>]\<rparr>)"
    by simp
  have q: "(0::int) \<le> 0" by simp
  from update_tool_remove_nonpositive [OF reachable_example_client l i q, of valid_operations_repr]
  show ?thesis by simp
qed

text \<open>
  C10, as it was stated, fails for a negative quantity: with two apples in the list of
  customer 0, removing \<open>-1\<close> apples through the tool gives the message of the check of the
  quantity, not \<^verbatim>\<open>"Quantity must be positive for removal"\<close>.
\<close>

theorem update_tool_remove_negative_counterexample:
  "fst (UpdateListTool_forward valid_operations_repr example_client (PInt 101) (PInt (- 1)) (PInt 0)
          (PStr ''remove'')) =
     Inr (ODict [(''error'', OStr ''Quantity cannot be negative''),
                 (''error_code'', OStr ''VALIDATION_ERROR'')]) \<and>
   fst (UpdateListTool_forward valid_operations_repr example_client (PInt 101) (PInt (- 1)) (PInt 0)
          (PStr ''remove'')) \<noteq>
     Inr (ODict [(''error'', OStr ''Quantity must be positive for removal''),
                 (''error_code'', OStr ''VALIDATION_ERROR'')]) \<and>
   shopping_lists example_client 0 = Some \<lparr>list_id = 0, items = [\<lparr>sku = 101, quantity = 2\<rparr>]\<rparr>"
  by (simp add: update_tool_negative example_client_eq)

end
